theory Spec2Isabelle
  imports Main "HOL-Library.AList"
begin

section \<open>JSON values and Python dictionaries\<close>

text \<open>
  The pipeline keeps all of its metadata as the values that \<^verbatim>\<open>json.load\<close> returns:
  \<^verbatim>\<open>None\<close>, booleans, numbers, strings, lists and dictionaries. A dictionary is an
  association list in insertion order with one entry per key; \<open>map_of\<close> reads it and
  \<open>AList.update\<close> is Python's \<^verbatim>\<open>d[k] = v\<close> (replace in place, or append a new key).
  Numbers are integers here; no function below computes with a float.
\<close>

datatype json =
    JNull
  | JBool bool
  | JNum int
  | JStr string
  | JArr "json list"
  | JObj "(string \<times> json) list"

type_synonym pydict = "(string \<times> json) list"

section \<open>The orchestrator: \<^verbatim>\<open>PDFProcessor.run\<close> (pipeline/processor.py)\<close>

text \<open>
  A step function is called as \<^verbatim>\<open>step_func(self.config, self.llm_client)\<close>. The
  configuration is fixed; what a step reads and changes (the artifact store on disk, the
  client and its cost tracker) is the state \<open>'s\<close>. A step either returns its result
  dictionary or raises an \<^verbatim>\<open>Exception\<close> whose \<^verbatim>\<open>str\<close> is the message carried by
  \<open>Raised\<close>; in both cases the changes it made before are kept.
\<close>

datatype step_outcome = Returned pydict | Raised string

type_synonym 's step_func = "'s \<Rightarrow> step_outcome \<times> 's"

text \<open>The six step functions that \<^verbatim>\<open>pipeline/steps/__init__.py\<close> exports.\<close>

record 's step_funcs =
  ocr_step :: "'s step_func"
  improve_table_step :: "'s step_func"
  context_step :: "'s step_func"
  enhance_step :: "'s step_func"
  table_step :: "'s step_func"
  image_step :: "'s step_func"

text \<open>The processor object: \<^verbatim>\<open>self.results\<close> and the state the steps work on.\<close>

record 's processor =
  results :: "(string \<times> pydict) list"
  world :: 's

datatype run_error =
    InvalidStepNames "string list" "string list"
      \<comment> \<open>\<^verbatim>\<open>ValueError(f"Invalid step names: {invalid_steps}. Valid steps: {list(all_steps.keys())}")\<close>\<close>
  | KeyError string

text \<open>
  The table \<^verbatim>\<open>all_steps\<close> of \<^verbatim>\<open>run\<close>: name, title and function, in the order the
  dictionary literal lists them. The processor imports four of the six exported steps.
\<close>

definition all_steps :: "'s step_funcs \<Rightarrow> (string \<times> string \<times> 's step_func) list" where
  "all_steps sf =
     [(''ocr'', ''OCR Extraction'', ocr_step sf),
      (''context'', ''Context Metadata'', context_step sf),
      (''enhance'', ''Enhance Metadata'', enhance_step sf),
      (''table'', ''Table Metadata'', table_step sf)]"

text \<open>
  The loop \<^verbatim>\<open>for step_name in steps_to_run\<close>. The lookup \<^verbatim>\<open>all_steps[step_name]\<close>
  is outside the \<^verbatim>\<open>try\<close>; the call of the step and the store of its result are inside,
  and the handler stores the error dictionary under the step's name.
\<close>

fun execute_steps ::
  "(string \<times> string \<times> 's step_func) list \<Rightarrow> string list \<Rightarrow> 's processor
     \<Rightarrow> (run_error + (string \<times> pydict) list) \<times> 's processor" where
  "execute_steps tbl [] p = (Inr (results p), p)"
| "execute_steps tbl (step_name # rest) p =
     (case map_of tbl step_name of
        None \<Rightarrow> (Inl (KeyError step_name), p)
      | Some (step_title, step_func) \<Rightarrow>
          (case step_func (world p) of
             (Returned result, w) \<Rightarrow>
               execute_steps tbl rest
                 \<lparr>results = AList.update step_name result (results p), world = w\<rparr>
           | (Raised msg, w) \<Rightarrow>
               execute_steps tbl rest
                 \<lparr>results =
                    AList.update step_name
                      [(''status'', JStr ''error''), (''error'', JStr msg)] (results p),
                  world = w\<rparr>))"

definition run ::
  "'s step_funcs \<Rightarrow> string list option \<Rightarrow> 's processor
     \<Rightarrow> (run_error + (string \<times> pydict) list) \<times> 's processor" where
  "run sf steps p =
     (case steps of
        None \<Rightarrow> execute_steps (all_steps sf) (map fst (all_steps sf)) p
      | Some ss \<Rightarrow>
          (let invalid_steps = filter (\<lambda>s. map_of (all_steps sf) s = None) ss
           in if invalid_steps \<noteq> []
              then (Inl (InvalidStepNames invalid_steps (map fst (all_steps sf))), p)
              else execute_steps (all_steps sf) ss p))"

text \<open>The function that \<^verbatim>\<open>run\<close> calls for a step name, and the state after it.\<close>

definition step_func_of :: "'s step_funcs \<Rightarrow> string \<Rightarrow> 's step_func" where
  "step_func_of sf name =
     (case map_of (all_steps sf) name of
        Some (title, f) \<Rightarrow> f
      | None \<Rightarrow> (\<lambda>w. (Raised ''KeyError'', w)))"

definition world_after :: "'s step_funcs \<Rightarrow> string list \<Rightarrow> 's \<Rightarrow> 's" where
  "world_after sf names w = fold (\<lambda>name v. snd (step_func_of sf name v)) names w"

text \<open>The stage list that a call selects.\<close>

definition steps_to_run :: "'s step_funcs \<Rightarrow> string list option \<Rightarrow> string list" where
  "steps_to_run sf steps = (case steps of None \<Rightarrow> map fst (all_steps sf) | Some ss \<Rightarrow> ss)"

text \<open>
  Six step functions that only write their own name to a log, to see which of them a
  run calls.
\<close>

definition log_step :: "string \<Rightarrow> string list step_func" where
  "log_step name w = (Returned [(''status'', JStr ''success'')], w @ [name])"

definition logging_steps :: "string list step_funcs" where
  "logging_steps =
     \<lparr>ocr_step = log_step ''run_ocr_step'',
      improve_table_step = log_step ''run_improve_table_step'',
      context_step = log_step ''run_context_step'',
      enhance_step = log_step ''run_enhance_step'',
      table_step = log_step ''run_table_step'',
      image_step = log_step ''run_image_step''\<rparr>"

definition raising_steps :: "string list step_funcs" where
  "raising_steps =
     logging_steps\<lparr>ocr_step := (\<lambda>w. (Raised ''disk full'', w @ [''run_ocr_step'']))\<rparr>"

section \<open>Python primitives on JSON values\<close>

datatype py_exception =
    TypeError
  | AttributeError
  | ValueError
  | FileNotFoundError
  | IsADirectoryError
  | JSONDecodeError
  | LitellmConfigError
  | ServiceError string

text \<open>Sequencing of calls that may raise: the first exception ends the computation.\<close>

definition then_do :: "py_exception + 'a \<Rightarrow> ('a \<Rightarrow> py_exception + 'b) \<Rightarrow> py_exception + 'b" where
  "then_do r f = (case r of Inl e \<Rightarrow> Inl e | Inr v \<Rightarrow> f v)"

text \<open>\<^verbatim>\<open>d.get(k, default)\<close>; \<^verbatim>\<open>d.get(k)\<close> is \<open>dict_get d k JNull\<close>.\<close>

definition dict_get :: "pydict \<Rightarrow> string \<Rightarrow> json \<Rightarrow> json" where
  "dict_get d k dflt = (case map_of d k of None \<Rightarrow> dflt | Some v \<Rightarrow> v)"

text \<open>Truth value of a JSON value, as \<^verbatim>\<open>if v:\<close> and \<^verbatim>\<open>not v\<close> test it.\<close>

fun truthy :: "json \<Rightarrow> bool" where
  "truthy JNull = False"
| "truthy (JBool b) = b"
| "truthy (JNum n) = (n \<noteq> 0)"
| "truthy (JStr s) = (s \<noteq> [])"
| "truthy (JArr xs) = (xs \<noteq> [])"
| "truthy (JObj d) = (d \<noteq> [])"

text \<open>
  Iteration (\<^verbatim>\<open>for x in v\<close>, \<^verbatim>\<open>set(v)\<close>): a list yields its items, a string its
  characters, a dictionary its keys; \<^verbatim>\<open>None\<close>, booleans and numbers raise
  \<^verbatim>\<open>TypeError\<close>.
\<close>

fun py_iter :: "json \<Rightarrow> py_exception + json list" where
  "py_iter (JArr xs) = Inr xs"
| "py_iter (JStr s) = Inr (map (\<lambda>c. JStr [c]) s)"
| "py_iter (JObj d) = Inr (map (\<lambda>kv. JStr (fst kv)) d)"
| "py_iter JNull = Inl TypeError"
| "py_iter (JBool b) = Inl TypeError"
| "py_iter (JNum n) = Inl TypeError"

text \<open>
  Set members must be hashable (lists and dictionaries are not), and a set holds one of
  any two equal members; \<^verbatim>\<open>True == 1\<close> and \<^verbatim>\<open>False == 0\<close>, every other two
  hashable JSON values are equal only when identical. \<open>hash_key\<close> maps equal members to
  the same value.
\<close>

fun hashable :: "json \<Rightarrow> bool" where
  "hashable (JArr xs) = False"
| "hashable (JObj d) = False"
| "hashable v = True"

fun hash_key :: "json \<Rightarrow> json" where
  "hash_key (JBool b) = JNum (if b then 1 else 0)"
| "hash_key v = v"

text \<open>
  A Python set is kept as the list of its members without repetition, in the order of
  first insertion. The order in which Python lists a set is not specified; the properties
  below depend only on which members the list holds.
  \<open>py_set_update s xs\<close> adds the items \<open>xs\<close> one by one to the set \<open>s\<close>.
\<close>

fun py_set_update :: "json list \<Rightarrow> json list \<Rightarrow> py_exception + json list" where
  "py_set_update s [] = Inr s"
| "py_set_update s (x # xs) =
     (if \<not> hashable x then Inl TypeError
      else if hash_key x \<in> set (map hash_key s) then py_set_update s xs
      else py_set_update (s @ [x]) xs)"

definition py_set :: "json \<Rightarrow> py_exception + json list" where
  "py_set v = then_do (py_iter v) (py_set_update [])"

section \<open>Sub-element correlation (extraction/metadata/extract\_image\_metadata.py)\<close>

text \<open>
  The dictionary \<^verbatim>\<open>image_metadata_map\<close>. Each item must have a \<^verbatim>\<open>get\<close> method
  (be a dictionary) and its \<^verbatim>\<open>image_id\<close> must be hashable. The map is only ever probed
  with strings, to which no other key is equal, so only its string keys are kept.
\<close>

fun image_metadata_map :: "json list \<Rightarrow> pydict \<Rightarrow> py_exception + pydict" where
  "image_metadata_map [] m = Inr m"
| "image_metadata_map (img_meta # rest) m =
     (case img_meta of
        JObj d \<Rightarrow>
          (case dict_get d ''image_id'' (JStr '''') of
             JStr image_id \<Rightarrow> image_metadata_map rest (AList.update image_id img_meta m)
           | JArr xs \<Rightarrow> Inl TypeError
           | JObj kvs \<Rightarrow> Inl TypeError
           | _ \<Rightarrow> image_metadata_map rest m)
      | _ \<Rightarrow> Inl AttributeError)"

text \<open>
  \<^verbatim>\<open>re.match(r"(?:figure|image)-(\d+)-(\d+)", element_id)\<close>: a match at the start of the
  string, not of the whole string; both groups are maximal runs of digits. Strings are
  lists of 8-bit characters, among which \<^verbatim>\<open>\d\<close> matches \<^verbatim>\<open>0\<close> to \<^verbatim>\<open>9\<close> only.
\<close>

definition is_digit :: "char \<Rightarrow> bool" where
  "is_digit c = (c \<in> set ''0123456789'')"

definition strip_prefix :: "string \<Rightarrow> string \<Rightarrow> string option" where
  "strip_prefix p s = (if take (length p) s = p then Some (drop (length p) s) else None)"

definition match_element_id :: "string \<Rightarrow> (string \<times> string) option" where
  "match_element_id element_id =
     (case (case strip_prefix ''figure'' element_id of
              Some r \<Rightarrow> Some r
            | None \<Rightarrow> strip_prefix ''image'' element_id) of
        None \<Rightarrow> None
      | Some r \<Rightarrow>
          (case strip_prefix ''-'' r of
             None \<Rightarrow> None
           | Some r1 \<Rightarrow>
               (let page_num = takeWhile is_digit r1 in
                if page_num = [] then None
                else (case strip_prefix ''-'' (dropWhile is_digit r1) of
                        None \<Rightarrow> None
                      | Some r2 \<Rightarrow>
                          (let index = takeWhile is_digit r2 in
                           if index = [] then None else Some (page_num, index))))))"

definition image_spelling :: "string \<Rightarrow> string \<Rightarrow> string" where
  "image_spelling page_num index = ''image-'' @ page_num @ ''-'' @ index"

definition figure_spelling :: "string \<Rightarrow> string \<Rightarrow> string" where
  "figure_spelling page_num index = ''figure-'' @ page_num @ ''-'' @ index"

text \<open>The probe of \<^verbatim>\<open>possible_image_ids\<close>, the \<^verbatim>\<open>image-\<close> spelling first.\<close>

definition probe_image_ids :: "pydict \<Rightarrow> string \<Rightarrow> string \<Rightarrow> json option" where
  "probe_image_ids m page_num index =
     (case map_of m (image_spelling page_num index) of
        Some v \<Rightarrow> Some v
      | None \<Rightarrow> map_of m (figure_spelling page_num index))"

text \<open>\<^verbatim>\<open>if matched.get(k): element[k] = matched[k]\<close>\<close>

definition copy_if_truthy :: "pydict \<Rightarrow> string \<Rightarrow> pydict \<Rightarrow> pydict" where
  "copy_if_truthy matched k element =
     (if truthy (dict_get matched k JNull)
      then AList.update k (dict_get matched k JNull) element
      else element)"

text \<open>
  \<^verbatim>\<open>element[k] = list(set(element.get(k, [])).union(set(matched.get(k, []))))\<close>
\<close>

definition merge_unique :: "pydict \<Rightarrow> string \<Rightarrow> pydict \<Rightarrow> py_exception + pydict" where
  "merge_unique matched k element =
     then_do (py_set (dict_get element k (JArr []))) (\<lambda>existing.
     then_do (py_set (dict_get matched k (JArr []))) (\<lambda>new.
     then_do (py_set_update existing new) (\<lambda>merged.
       Inr (AList.update k (JArr merged) element))))"

text \<open>The assignments to a matched element, in the order of the source.\<close>

definition enhance_matched :: "pydict \<Rightarrow> pydict \<Rightarrow> py_exception + pydict" where
  "enhance_matched matched element =
     (let e1 = AList.update ''image_type'' (dict_get matched ''image_type'' (JStr '''')) element;
          e2 = AList.update ''natural_description''
                 (dict_get matched ''natural_description'' (JStr '''')) e1;
          e3 = copy_if_truthy matched ''title'' e2;
          e4 = copy_if_truthy matched ''summary'' e3
      in then_do (merge_unique matched ''keywords'' e4) (\<lambda>e5.
         then_do (merge_unique matched ''entities'' e5) (\<lambda>e6.
           Inr (copy_if_truthy matched ''related_tables''
                 (copy_if_truthy matched ''application_context''
                   (copy_if_truthy matched ''model_applicability''
                     (copy_if_truthy matched ''component_type''
                       (copy_if_truthy matched ''model_name''
                         (copy_if_truthy matched ''locations''
                           (copy_if_truthy matched ''dates'' e6))))))))))"

text \<open>
  One round of the loop over \<^verbatim>\<open>content_elements\<close>. An element that is not a dictionary
  has no \<^verbatim>\<open>get\<close>; \<^verbatim>\<open>re.match\<close> raises \<^verbatim>\<open>TypeError\<close> on an identifier that is
  not a string; the matched record must be a dictionary for its \<^verbatim>\<open>get\<close>.
\<close>

definition enhance_element :: "pydict \<Rightarrow> json \<Rightarrow> py_exception + json" where
  "enhance_element m element =
     (case element of
        JObj e \<Rightarrow>
          (if map_of e ''type'' \<noteq> Some (JStr ''figure'') then Inr element
           else (case dict_get e ''element_id'' (JStr '''') of
                   JStr element_id \<Rightarrow>
                     (case match_element_id element_id of
                        None \<Rightarrow> Inr element
                      | Some (page_num, index) \<Rightarrow>
                          (case probe_image_ids m page_num index of
                             None \<Rightarrow> Inr element
                           | Some matched_image_meta \<Rightarrow>
                               (if \<not> truthy matched_image_meta then Inr element
                                else (case matched_image_meta of
                                        JObj matched \<Rightarrow>
                                          then_do (enhance_matched matched e)
                                            (\<lambda>e'. Inr (JObj e'))
                                      | _ \<Rightarrow> Inl AttributeError))))
                 | _ \<Rightarrow> Inl TypeError))
      | _ \<Rightarrow> Inl AttributeError)"

fun enhance_elements :: "pydict \<Rightarrow> json list \<Rightarrow> py_exception + json list" where
  "enhance_elements m [] = Inr []"
| "enhance_elements m (element # rest) =
     then_do (enhance_element m element) (\<lambda>element'.
     then_do (enhance_elements m rest) (\<lambda>rest'. Inr (element' # rest')))"

text \<open>
  The whole function. The elements are changed in place, so the returned dictionary is
  the argument with its \<^verbatim>\<open>content_elements\<close> list holding the enhanced elements. When
  \<^verbatim>\<open>content_elements\<close> is a string or a dictionary the loop runs over characters or
  keys and raises at the first of them, or changes nothing when there is none.
\<close>

definition enhance_content_elements_with_image_metadata ::
  "pydict \<Rightarrow> py_exception + pydict" where
  "enhance_content_elements_with_image_metadata context_metadata =
     (case map_of context_metadata ''image_metadata'' of
        None \<Rightarrow> Inr context_metadata
      | Some image_metadata \<Rightarrow>
          (if \<not> truthy image_metadata then Inr context_metadata
           else (case map_of context_metadata ''content_elements'' of
                   None \<Rightarrow> Inr context_metadata
                 | Some content_elements \<Rightarrow>
                     then_do (py_iter image_metadata) (\<lambda>records.
                     then_do (image_metadata_map records []) (\<lambda>m.
                     then_do (py_iter content_elements) (\<lambda>elements.
                     then_do (enhance_elements m elements) (\<lambda>elements'.
                       Inr (case content_elements of
                              JArr xs \<Rightarrow>
                                AList.update ''content_elements'' (JArr elements')
                                  context_metadata
                            | _ \<Rightarrow> context_metadata))))))))"

text \<open>
  The fields that the loop body copies behind a truth test, and the two halves of the
  assignments around the set merges, named for the proofs.
\<close>

definition guarded_fields :: "string list" where
  "guarded_fields = [''title'', ''summary'', ''dates'', ''locations'', ''model_name'',
     ''component_type'', ''model_applicability'', ''application_context'', ''related_tables'']"

definition base_fields :: "pydict \<Rightarrow> pydict \<Rightarrow> pydict" where
  "base_fields matched element =
     copy_if_truthy matched ''summary'' (copy_if_truthy matched ''title''
       (AList.update ''natural_description''
          (dict_get matched ''natural_description'' (JStr ''''))
          (AList.update ''image_type'' (dict_get matched ''image_type'' (JStr '''')) element)))"

definition extra_fields :: "pydict \<Rightarrow> pydict \<Rightarrow> pydict" where
  "extra_fields matched e6 =
     copy_if_truthy matched ''related_tables''
       (copy_if_truthy matched ''application_context''
         (copy_if_truthy matched ''model_applicability''
           (copy_if_truthy matched ''component_type''
             (copy_if_truthy matched ''model_name''
               (copy_if_truthy matched ''locations''
                 (copy_if_truthy matched ''dates'' e6))))))"

text \<open>
  A page with one figure element and one generated image record. The element has an
  \<^verbatim>\<open>image_type\<close> and a title; the record has an empty title and no \<^verbatim>\<open>image_type\<close>.
\<close>

definition demo_element :: pydict where
  "demo_element =
     [(''element_id'', JStr ''figure-12-2''), (''type'', JStr ''figure''),
      (''title'', JStr ''Pump''), (''image_type'', JStr ''diagram''),
      (''keywords'', JArr [JStr ''a'', JStr ''b''])]"

definition demo_record :: pydict where
  "demo_record =
     [(''title'', JStr ''''), (''keywords'', JArr [JStr ''b'', JStr ''c'']),
      (''entities'', JArr []), (''image_id'', JStr ''image-12-2'')]"

definition demo_context :: pydict where
  "demo_context =
     [(''page_number'', JNum 12),
      (''content_elements'', JArr [JObj demo_element]),
      (''image_metadata'', JArr [JObj demo_record])]"

definition demo_element_enhanced :: pydict where
  "demo_element_enhanced =
     [(''element_id'', JStr ''figure-12-2''), (''type'', JStr ''figure''),
      (''title'', JStr ''Pump''), (''image_type'', JStr ''''),
      (''keywords'', JArr [JStr ''a'', JStr ''b'', JStr ''c'']),
      (''natural_description'', JStr ''''), (''entities'', JArr [])]"

definition demo_enhanced :: pydict where
  "demo_enhanced =
     [(''page_number'', JNum 12),
      (''content_elements'', JArr [JObj demo_element_enhanced]),
      (''image_metadata'', JArr [JObj demo_record])]"

text \<open>
  A record as the response schema \<^verbatim>\<open>ImageMetadataResponse\<close> allows it, where
  \<^verbatim>\<open>entities\<close> is \<^verbatim>\<open>Optional[List[str]]\<close> with default \<^verbatim>\<open>None\<close>; the identifier
  fields are those that \<^verbatim>\<open>process_all_images\<close> adds. The second record is the same
  without the \<^verbatim>\<open>entities\<close> key.
\<close>

definition null_entities_record :: pydict where
  "null_entities_record =
     [(''image_type'', JStr ''diagram''), (''title'', JStr ''Pump assembly''),
      (''summary'', JStr ''Exploded view''), (''natural_description'', JStr ''A pump''),
      (''keywords'', JArr [JStr ''b'', JStr ''c'']), (''entities'', JNull),
      (''image_id'', JStr ''image-12-2''), (''image_file'', JStr ''image-12-2.png'')]"

definition no_entities_record :: pydict where
  "no_entities_record =
     [(''image_type'', JStr ''diagram''), (''title'', JStr ''Pump assembly''),
      (''summary'', JStr ''Exploded view''), (''natural_description'', JStr ''A pump''),
      (''keywords'', JArr [JStr ''b'', JStr ''c'']),
      (''image_id'', JStr ''image-12-2''), (''image_file'', JStr ''image-12-2.png'')]"

definition figure_element :: pydict where
  "figure_element =
     [(''element_id'', JStr ''figure-12-2''), (''type'', JStr ''figure''),
      (''keywords'', JArr [JStr ''a'', JStr ''b''])]"

definition context_with :: "pydict \<Rightarrow> pydict" where
  "context_with record =
     [(''content_elements'', JArr [JObj figure_element]),
      (''image_metadata'', JArr [JObj record])]"

section \<open>Files\<close>

text \<open>
  The artifact store is a map from paths to nodes. \<^verbatim>\<open>open(path)\<close> of a missing path
  raises \<^verbatim>\<open>FileNotFoundError\<close>, of a directory \<^verbatim>\<open>IsADirectoryError\<close>;
  \<^verbatim>\<open>path.exists()\<close> holds for both kinds of node. \<^verbatim>\<open>json.load\<close> is a parameter
  \<open>parse\<close>, which is \<open>None\<close> on text that is not JSON.
\<close>

datatype node = Dir | File string

definition path_exists :: "('p \<Rightarrow> node option) \<Rightarrow> 'p \<Rightarrow> bool" where
  "path_exists fs p = (fs p \<noteq> None)"

definition open_read :: "('p \<Rightarrow> node option) \<Rightarrow> 'p \<Rightarrow> py_exception + string" where
  "open_read fs p =
     (case fs p of
        None \<Rightarrow> Inl FileNotFoundError
      | Some Dir \<Rightarrow> Inl IsADirectoryError
      | Some (File s) \<Rightarrow> Inr s)"

definition json_load ::
  "(string \<Rightarrow> json option) \<Rightarrow> ('p \<Rightarrow> node option) \<Rightarrow> 'p \<Rightarrow> py_exception + json" where
  "json_load parse fs p =
     then_do (open_read fs p)
       (\<lambda>s. case parse s of None \<Rightarrow> Inl JSONDecodeError | Some v \<Rightarrow> Inr v)"

section \<open>Flag enhancement: \<^verbatim>\<open>enhance_context_metadata\<close> (core/utils.py)\<close>

text \<open>\<^verbatim>\<open>len(v)\<close>: defined on lists, strings and dictionaries.\<close>

fun py_len :: "json \<Rightarrow> py_exception + nat" where
  "py_len (JArr xs) = Inr (length xs)"
| "py_len (JStr s) = Inr (length s)"
| "py_len (JObj d) = Inr (length d)"
| "py_len JNull = Inl TypeError"
| "py_len (JBool b) = Inl TypeError"
| "py_len (JNum n) = Inl TypeError"

text \<open>\<^verbatim>\<open>d.update({k1: v1, ...})\<close>: the entries are stored in the order of the literal.\<close>

definition dict_update :: "pydict \<Rightarrow> pydict \<Rightarrow> pydict" where
  "dict_update entries d = fold (\<lambda>kv acc. AList.update (fst kv) (snd kv) acc) entries d"

text \<open>
  Both files are loaded first. \<^verbatim>\<open>basic_metadata.get\<close> needs a dictionary; so do
  \<^verbatim>\<open>context_metadata.copy()\<close> and the \<^verbatim>\<open>update\<close> method of the copy, which is
  looked up before the argument with its \<^verbatim>\<open>len\<close> calls is evaluated.
\<close>

definition enhance_context_metadata ::
  "(string \<Rightarrow> json option) \<Rightarrow> ('p \<Rightarrow> node option) \<Rightarrow> 'p \<Rightarrow> 'p \<Rightarrow> py_exception + pydict" where
  "enhance_context_metadata parse fs context_metadata_path basic_metadata_path =
     then_do (json_load parse fs context_metadata_path) (\<lambda>context_metadata.
     then_do (json_load parse fs basic_metadata_path) (\<lambda>basic_metadata.
       case basic_metadata of
         JObj basic \<Rightarrow>
           (let tables = dict_get basic ''tables'' (JArr []);
                figures = dict_get basic ''figures'' (JArr []);
                text_blocks = dict_get basic ''text_blocks'' (JArr [])
            in case context_metadata of
                 JObj context \<Rightarrow>
                   then_do (py_len tables) (\<lambda>table_count.
                   then_do (py_len figures) (\<lambda>figure_count.
                   then_do (py_len text_blocks) (\<lambda>text_block_count.
                     Inr (dict_update
                            [(''has_tables'', JBool (table_count > 0)),
                             (''has_figures'', JBool (figure_count > 0)),
                             (''has_text_blocks'', JBool (text_block_count > 0)),
                             (''table_count'', JNum (int table_count)),
                             (''figure_count'', JNum (int figure_count)),
                             (''text_block_count'', JNum (int text_block_count)),
                             (''content_summary'',
                                JObj [(''tables'', tables), (''figures'', figures),
                                      (''text_blocks'', text_blocks)])]
                            context))))
               | _ \<Rightarrow> Inl AttributeError)
       | _ \<Rightarrow> Inl AttributeError))"

definition flag_keys :: "string list" where
  "flag_keys = [''has_tables'', ''has_figures'', ''has_text_blocks'', ''table_count'',
     ''figure_count'', ''text_block_count'', ''content_summary'']"

text \<open>A store with the two metadata files of one page, already parsed by \<open>demo_parse\<close>.\<close>

definition demo_parse :: "string \<Rightarrow> json option" where
  "demo_parse s =
     (if s = ''context'' then Some (JObj [(''title'', JStr ''Valves''), (''has_tables'', JBool False)])
      else if s = ''basic'' then
        Some (JObj [(''page_number'', JNum 3), (''page_image'', JStr ''page_3_full.png''),
                    (''tables'', JArr [JStr ''table-3-1'', JStr ''table-3-2'']),
                    (''figures'', JArr []), (''text_blocks'', JArr [JStr ''page_3_text.txt''])])
      else None)"

definition demo_files :: "string \<Rightarrow> node option" where
  "demo_files p =
     (if p = ''context_metadata_page_3.json'' then Some (File ''context'')
      else if p = ''metadata_page_3.json'' then Some (File ''basic'')
      else None)"

section \<open>The context window: \<^verbatim>\<open>get_page_context\<close> (indexing/metadata/extract\_page\_context.py)\<close>

text \<open>
  The paths below \<^verbatim>\<open>pdf_base_path\<close> that the function builds from a page number:
  \<^verbatim>\<open>page_n\<close>, \<^verbatim>\<open>page_n/page_n_full.png\<close>, \<^verbatim>\<open>page_n/metadata_page_n.json\<close> and
  \<^verbatim>\<open>page_n/text/page_n_text.txt\<close>.
\<close>

datatype page_path = PageDir int | PageImage int | PageMetadata int | PageText int

record page_data =
  page_number :: int
  image_path :: page_path
  image_data_uri :: string
  metadata_path :: page_path
  metadata_content :: string
  text_path :: page_path
  text_content :: string

record page_context =
  previous_page :: "page_data option"
  current_page :: page_data
  next_page :: "page_data option"

text \<open>
  The library functions the readers call: \<^verbatim>\<open>base64.b64encode\<close>, \<^verbatim>\<open>json.load\<close>
  and \<^verbatim>\<open>json.dumps\<close>.
\<close>

record codecs =
  b64encode :: "string \<Rightarrow> string"
  json_parse :: "string \<Rightarrow> json option"
  json_dumps :: "json \<Rightarrow> string"

definition encode_image_to_data_uri ::
  "codecs \<Rightarrow> (page_path \<Rightarrow> node option) \<Rightarrow> page_path \<Rightarrow> py_exception + string" where
  "encode_image_to_data_uri c fs path =
     then_do (open_read fs path)
       (\<lambda>bytes. Inr (''data:image/png;base64,'' @ b64encode c bytes))"

definition read_json_file ::
  "codecs \<Rightarrow> (page_path \<Rightarrow> node option) \<Rightarrow> page_path \<Rightarrow> py_exception + string" where
  "read_json_file c fs path =
     then_do (json_load (json_parse c) fs path)
       (\<lambda>v. Inr (json_dumps c (JStr (json_dumps c v))))"

definition read_text_file :: "(page_path \<Rightarrow> node option) \<Rightarrow> page_path \<Rightarrow> py_exception + string" where
  "read_text_file fs path = open_read fs path"

text \<open>
  The construction \<^verbatim>\<open>PageData(...)\<close>, which the source writes out three times, for the
  current, the previous and the next page. The image is read unconditionally; the
  metadata and the text are read only when their files exist.
\<close>

definition load_page_data ::
  "codecs \<Rightarrow> (page_path \<Rightarrow> node option) \<Rightarrow> int \<Rightarrow> py_exception + page_data" where
  "load_page_data c fs n =
     then_do (encode_image_to_data_uri c fs (PageImage n)) (\<lambda>uri.
     then_do (if path_exists fs (PageMetadata n) then read_json_file c fs (PageMetadata n)
              else Inr ''{}'') (\<lambda>metadata.
     then_do (if path_exists fs (PageText n) then read_text_file fs (PageText n)
              else Inr '''') (\<lambda>text.
       Inr \<lparr>page_number = n, image_path = PageImage n, image_data_uri = uri,
            metadata_path = PageMetadata n, metadata_content = metadata,
            text_path = PageText n, text_content = text\<rparr>)))"

definition get_page_context ::
  "codecs \<Rightarrow> (page_path \<Rightarrow> node option) \<Rightarrow> int \<Rightarrow> py_exception + page_context" where
  "get_page_context c fs n =
     (if n < 1 then Inl ValueError
      else if \<not> path_exists fs (PageDir n) then Inl FileNotFoundError
      else
        then_do (load_page_data c fs n) (\<lambda>current.
        then_do (if n > 1 \<and> path_exists fs (PageDir (n - 1))
                 then then_do (load_page_data c fs (n - 1)) (\<lambda>p. Inr (Some p))
                 else Inr None) (\<lambda>previous.
        then_do (if path_exists fs (PageDir (n + 1))
                 then then_do (load_page_data c fs (n + 1)) (\<lambda>p. Inr (Some p))
                 else Inr None) (\<lambda>next.
          Inr \<lparr>previous_page = previous, current_page = current, next_page = next\<rparr>))))"

text \<open>
  Two stores. In the first the directory of page 1 exists with its metadata and text, but
  the page image is missing. In the second page 1 is complete and the directory of page 2
  exists without a page image.
\<close>

definition store_without_image :: "page_path \<Rightarrow> node option" where
  "store_without_image p =
     (if p = PageDir 1 then Some Dir
      else if p = PageMetadata 1 then Some (File ''{}'')
      else if p = PageText 1 then Some (File ''Introduction'')
      else None)"

definition store_neighbour_without_image :: "page_path \<Rightarrow> node option" where
  "store_neighbour_without_image p =
     (if p = PageDir 1 \<or> p = PageDir 2 then Some Dir
      else if p = PageImage 1 then Some (File ''png'')
      else None)"

section \<open>The context-generation stage: \<^verbatim>\<open>run_context_step\<close> (pipeline/steps/context\_step.py)\<close>

text \<open>
  The stage reads \<^verbatim>\<open>config.pdf_base_path\<close>, \<^verbatim>\<open>config.max_pages\<close> and
  \<^verbatim>\<open>config.skip_metadata_if_exists\<close>. The dataclass \<^verbatim>\<open>PipelineConfig\<close>
  (config/pipeline\_config.py) declares \<^verbatim>\<open>pdf_path\<close>, \<^verbatim>\<open>output_dir\<close>,
  \<^verbatim>\<open>model_name\<close>, \<^verbatim>\<open>skip_ocr_if_exists\<close> and \<^verbatim>\<open>skip_metadata_if_exists\<close>, and the
  property \<^verbatim>\<open>pdf_base_path\<close>; it declares no \<^verbatim>\<open>max_pages\<close>. A configuration object
  is kept here as the value of that property, the two flags, and the dictionary of the
  attributes that were assigned to the object after its construction
  (\<^verbatim>\<open>config.max_pages = 6\<close>), each \<^verbatim>\<open>None\<close> or an integer. The constructor returns an
  object without such attributes, and reading an attribute that the object does not have
  raises \<^verbatim>\<open>AttributeError\<close>.
\<close>

record pipeline_config =
  pdf_base_path :: string
  skip_ocr_if_exists :: bool
  skip_metadata_if_exists :: bool
  attributes :: "(string \<times> int option) list"

definition PipelineConfig :: "string \<Rightarrow> bool \<Rightarrow> bool \<Rightarrow> pipeline_config" where
  "PipelineConfig base skip_ocr skip_metadata =
     \<lparr>pdf_base_path = base, skip_ocr_if_exists = skip_ocr,
      skip_metadata_if_exists = skip_metadata, attributes = []\<rparr>"

definition config_max_pages :: "pipeline_config \<Rightarrow> py_exception + int option" where
  "config_max_pages config =
     (case map_of (attributes config) ''max_pages'' of
        None \<Rightarrow> Inl AttributeError
      | Some v \<Rightarrow> Inr v)"

text \<open>
  What the stage asks of the outside is gathered in an environment over the state \<open>'s\<close>
  of the artifact store and the model service: whether \<^verbatim>\<open>pdf_base_path\<close> exists, the
  page count that \<^verbatim>\<open>fitz\<close> reports for the document, whether the context metadata file
  of a page exists, and \<^verbatim>\<open>extract_and_save_context_metadata\<close>, which calls the model
  service and writes the file, or raises.
\<close>

record 's context_env =
  base_path_exists :: "'s \<Rightarrow> bool"
  pdf_page_count :: "'s \<Rightarrow> py_exception + int"
  context_metadata_exists :: "'s \<Rightarrow> int \<Rightarrow> bool"
  extract_and_save_context_metadata :: "int \<Rightarrow> 's \<Rightarrow> (py_exception + unit) \<times> 's"

text \<open>The second loop: every page is tried, a raising page counts as failed.\<close>

fun process_pages ::
  "'s context_env \<Rightarrow> int list \<Rightarrow> int \<Rightarrow> int \<Rightarrow> 's \<Rightarrow> (int \<times> int) \<times> 's" where
  "process_pages env [] successful failed w = ((successful, failed), w)"
| "process_pages env (page_num # rest) successful failed w =
     (case extract_and_save_context_metadata env page_num w of
        (Inr u, w') \<Rightarrow> process_pages env rest (successful + 1) failed w'
      | (Inl e, w') \<Rightarrow> process_pages env rest successful (failed + 1) w')"

definition run_context_step ::
  "'s context_env \<Rightarrow> pipeline_config \<Rightarrow> 's \<Rightarrow> (py_exception + pydict) \<times> 's" where
  "run_context_step env config w =
     (if \<not> base_path_exists env w
      then (Inr [(''status'', JStr ''error''),
                 (''error'', JStr (''OCR output not found at '' @ pdf_base_path config
                                    @ ''. Run OCR step first.''))], w)
      else
        (case pdf_page_count env w of
           Inl e \<Rightarrow> (Inl e, w)
         | Inr total_pages \<Rightarrow>
             (case config_max_pages config of
                Inl e \<Rightarrow> (Inl e, w)
              | Inr max_pages \<Rightarrow>
                  (let pages_to_check =
                         (case max_pages of
                            Some m \<Rightarrow> min m total_pages
                          | None \<Rightarrow> total_pages);
                       existing =
                         filter (\<lambda>page_num. context_metadata_exists env w page_num
                                   \<and> skip_metadata_if_exists config) [1..pages_to_check];
                       pages_with_metadata = int (length existing);
                       pages_to_process =
                         filter (\<lambda>page_num. \<not> (context_metadata_exists env w page_num
                                   \<and> skip_metadata_if_exists config)) [1..pages_to_check]
                   in if pages_to_process = []
                      then (Inr [(''status'', JStr ''skipped''),
                                 (''message'', JStr ''All pages already have context metadata''),
                                 (''pages_processed'', JNum total_pages)], w)
                      else
                        (case process_pages env pages_to_process 0 0 w of
                           ((successful, failed), w') \<Rightarrow>
                             (Inr [(''status'', JStr ''success''),
                                   (''pages_processed'', JNum successful),
                                   (''pages_failed'', JNum failed),
                                   (''pages_skipped'', JNum pages_with_metadata),
                                   (''total_pages'', JNum total_pages)], w'))))))"

text \<open>
  The configuration that the constructor returns for the document of \<^verbatim>\<open>main.py\<close>, and
  the same object after \<^verbatim>\<open>config.max_pages = 6\<close>. The store of six pages is the list of
  the pages that have a context metadata file, paired with the number of calls made to
  the model service; extraction always succeeds.
\<close>

definition constructed_config :: pipeline_config where
  "constructed_config = PipelineConfig ''output/short_complex_manual'' True True"

definition demo_config :: pipeline_config where
  "demo_config = constructed_config\<lparr>attributes := [(''max_pages'', Some 6)]\<rparr>"

definition demo_env :: "(int list \<times> nat) context_env" where
  "demo_env =
     \<lparr>base_path_exists = (\<lambda>w. True),
      pdf_page_count = (\<lambda>w. Inr 6),
      context_metadata_exists = (\<lambda>w page_num. page_num \<in> set (fst w)),
      extract_and_save_context_metadata = (\<lambda>page_num w. (Inr (), (page_num # fst w, Suc (snd w))))\<rparr>"

section \<open>The cost ledger: \<^verbatim>\<open>CostTracker\<close> and \<^verbatim>\<open>LitellmClient.chat\<close> (core/llm/litellm\_client.py)\<close>

text \<open>
  Costs are Python floats. The ledger only ever adds them, so the type of costs is left
  open: any type \<open>'c\<close> with a zero and an addition.
\<close>

record 'c breakdown_entry =
  entry_call_type :: string
  entry_model :: string
  entry_cost :: 'c
  entry_prompt_tokens :: int
  entry_completion_tokens :: int
  entry_total_tokens :: int

record 'c cost_tracker =
  total_cost :: 'c
  total_prompt_tokens :: int
  total_completion_tokens :: int
  total_tokens :: int
  call_count :: int
  cost_breakdown :: "'c breakdown_entry list"

text \<open>
  A response of the model service, as far as the ledger reads it: its \<^verbatim>\<open>usage\<close>, a
  dictionary of token counts, if the response has one.
\<close>

record response =
  usage :: "(string \<times> int) list option"
  content :: string

definition new_tracker :: "('c::zero) cost_tracker" where
  "new_tracker =
     \<lparr>total_cost = 0, total_prompt_tokens = 0, total_completion_tokens = 0,
      total_tokens = 0, call_count = 0, cost_breakdown = []\<rparr>"

definition usage_tokens :: "response \<Rightarrow> string \<Rightarrow> int" where
  "usage_tokens r k =
     (case map_of (case usage r of None \<Rightarrow> [] | Some u \<Rightarrow> u) k of None \<Rightarrow> 0 | Some n \<Rightarrow> n)"

text \<open>
  \<^verbatim>\<open>add_call\<close>. \<^verbatim>\<open>completion_cost\<close> of the litellm library is a parameter; it is
  \<open>None\<close> where the library raises (a model without a price, for one). The whole body is
  inside \<^verbatim>\<open>try\<close>, and the handler logs a warning and returns.
\<close>

definition add_call ::
  "(response \<Rightarrow> 'c option) \<Rightarrow> ('c::plus) cost_tracker \<Rightarrow> response \<Rightarrow> string \<Rightarrow> string
     \<Rightarrow> 'c cost_tracker" where
  "add_call completion_cost t r model_name call_type =
     (case completion_cost r of
        None \<Rightarrow> t
      | Some cost \<Rightarrow>
          (let prompt_tokens = usage_tokens r ''prompt_tokens'';
               completion_tokens = usage_tokens r ''completion_tokens'';
               tokens = usage_tokens r ''total_tokens''
           in \<lparr>total_cost = total_cost t + cost,
               total_prompt_tokens = total_prompt_tokens t + prompt_tokens,
               total_completion_tokens = total_completion_tokens t + completion_tokens,
               total_tokens = total_tokens t + tokens,
               call_count = call_count t + 1,
               cost_breakdown = cost_breakdown t @
                 [\<lparr>entry_call_type = call_type, entry_model = model_name, entry_cost = cost,
                   entry_prompt_tokens = prompt_tokens,
                   entry_completion_tokens = completion_tokens,
                   entry_total_tokens = tokens\<rparr>]\<rparr>))"

definition reset :: "('c::zero) cost_tracker \<Rightarrow> 'c cost_tracker" where
  "reset t = new_tracker"

definition get_summary :: "'c cost_tracker \<Rightarrow> 'c cost_tracker" where
  "get_summary t = t"

record 'c litellm_client =
  model_name :: "string option"
  provider :: "string option"
  cost_tracker :: "'c cost_tracker"

text \<open>
  \<^verbatim>\<open>chat\<close>. \<^verbatim>\<open>litellm.completion\<close> is a parameter that, for a model and a request
  \<open>'q\<close> (the messages and the optional settings passed through), returns a response or
  raises; \<^verbatim>\<open>chat\<close> raises again what it raises.
\<close>

definition chosen_model :: "'c litellm_client \<Rightarrow> string option \<Rightarrow> string option" where
  "chosen_model client name =
     (case name of
        Some m \<Rightarrow> if m \<noteq> [] then Some m else model_name client
      | None \<Rightarrow> model_name client)"

definition chat ::
  "(string \<Rightarrow> 'q \<Rightarrow> py_exception + response) \<Rightarrow> (response \<Rightarrow> 'c option)
     \<Rightarrow> ('c::plus) litellm_client \<Rightarrow> 'q \<Rightarrow> string option \<Rightarrow> string
     \<Rightarrow> (py_exception + response) \<times> 'c litellm_client" where
  "chat completion completion_cost client request name call_type =
     (case chosen_model client name of
        None \<Rightarrow> (Inl LitellmConfigError, client)
      | Some m \<Rightarrow>
          if m = [] then (Inl LitellmConfigError, client)
          else (case completion m request of
                  Inl ex \<Rightarrow> (Inl ex, client)
                | Inr r \<Rightarrow>
                    (Inr r, client\<lparr>cost_tracker :=
                              add_call completion_cost (cost_tracker client) r m call_type\<rparr>)))"

text \<open>The operations of a client that touch or read the ledger.\<close>

datatype 'q client_op =
    Chat 'q "string option" string
  | GetCostSummary
  | ResetCostTracking

fun is_reset :: "'q client_op \<Rightarrow> bool" where
  "is_reset ResetCostTracking = True"
| "is_reset op = False"

fun apply_op ::
  "(string \<Rightarrow> 'q \<Rightarrow> py_exception + response) \<Rightarrow> (response \<Rightarrow> 'c option)
     \<Rightarrow> ('c::{zero,plus}) litellm_client \<Rightarrow> 'q client_op \<Rightarrow> 'c litellm_client" where
  "apply_op completion completion_cost client (Chat request name call_type) =
     snd (chat completion completion_cost client request name call_type)"
| "apply_op completion completion_cost client GetCostSummary = client"
| "apply_op completion completion_cost client ResetCostTracking =
     client\<lparr>cost_tracker := reset (cost_tracker client)\<rparr>"

definition apply_ops ::
  "(string \<Rightarrow> 'q \<Rightarrow> py_exception + response) \<Rightarrow> (response \<Rightarrow> 'c option)
     \<Rightarrow> 'q client_op list \<Rightarrow> ('c::{zero,plus}) litellm_client \<Rightarrow> 'c litellm_client" where
  "apply_ops completion completion_cost ops client =
     fold (\<lambda>op c. apply_op completion completion_cost c op) ops client"

text \<open>
  \<open>extended_by t ys t'\<close>: the ledger \<open>t'\<close> is the ledger \<open>t\<close> with the entries
  \<open>ys\<close> appended and every counter advanced by what these entries carry.
\<close>

definition extended_by ::
  "('c::plus) cost_tracker \<Rightarrow> 'c breakdown_entry list \<Rightarrow> 'c cost_tracker \<Rightarrow> bool" where
  "extended_by t ys t' \<longleftrightarrow>
     cost_breakdown t' = cost_breakdown t @ ys
     \<and> call_count t' = call_count t + int (length ys)
     \<and> total_prompt_tokens t' = total_prompt_tokens t + sum_list (map entry_prompt_tokens ys)
     \<and> total_completion_tokens t' =
         total_completion_tokens t + sum_list (map entry_completion_tokens ys)
     \<and> total_tokens t' = total_tokens t + sum_list (map entry_total_tokens ys)
     \<and> total_cost t' = fold (\<lambda>entry c. c + entry_cost entry) ys (total_cost t)"

text \<open>A client, a response with its usage, and a cost function that knows one model.\<close>

definition demo_client :: "int litellm_client" where
  "demo_client = \<lparr>model_name = Some ''openai/gpt-4o'', provider = None, cost_tracker = new_tracker\<rparr>"

definition demo_response :: response where
  "demo_response =
     \<lparr>usage = Some [(''prompt_tokens'', 100), (''completion_tokens'', 20), (''total_tokens'', 120)],
      content = ''{}''\<rparr>"

definition demo_completion :: "string \<Rightarrow> unit \<Rightarrow> py_exception + response" where
  "demo_completion m request = Inr demo_response"

section \<open>Properties of the orchestrator\<close>

lemma valid_names: "map fst (all_steps sf) = [''ocr'', ''context'', ''enhance'', ''table'']"
  by (simp add: all_steps_def)

lemma execute_steps_valid:
  "set ss \<subseteq> set (map fst (all_steps sf)) \<Longrightarrow>
   \<exists>res. execute_steps (all_steps sf) ss p =
     (Inr res, \<lparr>results = res, world = world_after sf ss (world p)\<rparr>)
   \<and> (\<forall>n. n \<notin> set ss \<longrightarrow> map_of res n = map_of (results p) n)
   \<and> (\<forall>i<length ss. \<forall>msg.
         fst (step_func_of sf (ss ! i) (world_after sf (take i ss) (world p))) = Raised msg
         \<and> ss ! i \<notin> set (drop (Suc i) ss)
         \<longrightarrow> map_of res (ss ! i) = Some [(''status'', JStr ''error''), (''error'', JStr msg)])"
proof (induction ss arbitrary: p)
  case Nil
  then show ?case by (simp add: world_after_def)
next
  case (Cons a ss)
  from Cons.prems obtain t f where tf: "map_of (all_steps sf) a = Some (t, f)"
    by (auto simp: all_steps_def)
  hence sfo: "step_func_of sf a = f" by (simp add: step_func_of_def)
  obtain out w where fw: "f (world p) = (out, w)" by (cases "f (world p)")
  define r where "r = (case out of Returned result \<Rightarrow> result | Raised msg \<Rightarrow> [(''status'', JStr ''error''), (''error'', JStr msg)])"
  define p' where "p' = \<lparr>results = AList.update a r (results p), world = w\<rparr>"
  have step: "execute_steps (all_steps sf) (a # ss) p = execute_steps (all_steps sf) ss p'"
    using tf fw by (cases out) (simp_all add: r_def p'_def)
  from Cons.prems have sub: "set ss \<subseteq> set (map fst (all_steps sf))" by simp
  from Cons.IH[OF sub, of p'] obtain res where
    r1: "execute_steps (all_steps sf) ss p' = (Inr res, \<lparr>results = res, world = world_after sf ss (world p')\<rparr>)"
    and r2: "\<forall>n. n \<notin> set ss \<longrightarrow> map_of res n = map_of (results p') n"
    and r3: "\<forall>i<length ss. \<forall>msg.
         fst (step_func_of sf (ss ! i) (world_after sf (take i ss) (world p'))) = Raised msg
         \<and> ss ! i \<notin> set (drop (Suc i) ss)
         \<longrightarrow> map_of res (ss ! i) = Some [(''status'', JStr ''error''), (''error'', JStr msg)]" by blast
  have wp: "world p' = snd (step_func_of sf a (world p))" by (simp add: p'_def sfo fw)
  have wa: "\<And>xs. world_after sf (a # xs) (world p) = world_after sf xs (world p')"
    by (simp add: world_after_def wp)
  have c1: "execute_steps (all_steps sf) (a # ss) p =
     (Inr res, \<lparr>results = res, world = world_after sf (a # ss) (world p)\<rparr>)"
    using step r1 wa by simp
  have c2: "\<forall>n. n \<notin> set (a # ss) \<longrightarrow> map_of res n = map_of (results p) n"
    using r2 by (simp add: p'_def update_conv')
  have c3: "\<forall>i<length (a # ss). \<forall>msg.
         fst (step_func_of sf ((a # ss) ! i) (world_after sf (take i (a # ss)) (world p))) = Raised msg
         \<and> (a # ss) ! i \<notin> set (drop (Suc i) (a # ss))
         \<longrightarrow> map_of res ((a # ss) ! i) = Some [(''status'', JStr ''error''), (''error'', JStr msg)]"
  proof (intro allI impI)
    fix i msg
    assume i: "i < length (a # ss)"
    assume h: "fst (step_func_of sf ((a # ss) ! i) (world_after sf (take i (a # ss)) (world p))) = Raised msg
         \<and> (a # ss) ! i \<notin> set (drop (Suc i) (a # ss))"
    show "map_of res ((a # ss) ! i) = Some [(''status'', JStr ''error''), (''error'', JStr msg)]"
    proof (cases i)
      case 0
      with h have "out = Raised msg" and "a \<notin> set ss"
        by (simp_all add: world_after_def sfo fw)
      then show ?thesis using r2 0 by (simp add: p'_def r_def update_conv')
    next
      case (Suc j)
      with i h r3 show ?thesis by (simp add: wa)
    qed
  qed
  from c1 c2 c3 show ?case by blast
qed


lemma execute_steps_keys:
  "execute_steps tbl ss p = (Inr res, p') \<Longrightarrow> set ss \<union> fst ` set (results p) \<subseteq> fst ` set res"
proof (induction ss arbitrary: p)
  case Nil
  then show ?case by auto
next
  case (Cons a ss)
  from Cons.prems obtain t f where tf: "map_of tbl a = Some (t, f)"
    by (cases "map_of tbl a") auto
  obtain out w where fw: "f (world p) = (out, w)" by (cases "f (world p)")
  define r where "r = (case out of Returned result \<Rightarrow> result | Raised msg \<Rightarrow> [(''status'', JStr ''error''), (''error'', JStr msg)])"
  define q where "q = \<lparr>results = AList.update a r (results p), world = w\<rparr>"
  have "execute_steps tbl (a # ss) p = execute_steps tbl ss q"
    using tf fw by (cases out) (simp_all add: r_def q_def)
  with Cons.prems have "execute_steps tbl ss q = (Inr res, p')" by simp
  from Cons.IH[OF this] have "set ss \<union> fst ` set (results q) \<subseteq> fst ` set res" .
  moreover have "fst ` set (results q) = insert a (fst ` set (results p))"
    by (simp add: q_def dom_update)
  ultimately show ?case by auto
qed


text \<open>
  Claim C3 (orchestrator fault isolation). For every selected stage list of recognised
  names (the default list when no list is given), \<open>run\<close> returns the report and has
  called the step function of every entry of the list, in order, each on the state its
  predecessor left, whether or not an earlier one raised. A stage whose step function
  raised the message \<open>msg\<close> stands in the returned report as
  \<^verbatim>\<open>{"status": "error", "error": msg}\<close>; the report is keyed by stage name, so for a
  name listed more than once this is the entry of its last execution.
\<close>

theorem run_fault_isolation:
  assumes "set (steps_to_run sf steps) \<subseteq> {''ocr'', ''context'', ''enhance'', ''table''}"
  shows "\<exists>res. run sf steps p =
           (Inr res, \<lparr>results = res, world = world_after sf (steps_to_run sf steps) (world p)\<rparr>)
         \<and> (\<forall>i<length (steps_to_run sf steps). \<forall>msg.
               fst (step_func_of sf (steps_to_run sf steps ! i)
                      (world_after sf (take i (steps_to_run sf steps)) (world p))) = Raised msg
               \<and> steps_to_run sf steps ! i \<notin> set (drop (Suc i) (steps_to_run sf steps))
               \<longrightarrow> map_of res (steps_to_run sf steps ! i) = Some [(''status'', JStr ''error''), (''error'', JStr msg)])"
proof -
  let ?sel = "steps_to_run sf steps"
  from assms have sub: "set ?sel \<subseteq> set (map fst (all_steps sf))"
    by (simp add: valid_names)
  have "run sf steps p = execute_steps (all_steps sf) ?sel p"
  proof (cases steps)
    case None
    then show ?thesis by (simp add: run_def steps_to_run_def)
  next
    case (Some ss)
    with sub have "\<forall>s\<in>set ss. map_of (all_steps sf) s \<noteq> None"
      by (auto simp: steps_to_run_def map_of_eq_None_iff)
    hence "filter (\<lambda>s. map_of (all_steps sf) s = None) ss = []"
      by (simp add: filter_empty_conv)
    with Some show ?thesis by (simp add: run_def steps_to_run_def)
  qed
  with execute_steps_valid[OF sub, of p] show ?thesis by auto
qed

theorem run_fault_isolation_witness:
  "set (steps_to_run raising_steps (Some [''ocr'', ''context''])) \<subseteq> {''ocr'', ''context'', ''enhance'', ''table''}
   \<and> run raising_steps (Some [''ocr'', ''context'']) \<lparr>results = [], world = []\<rparr> =
       (Inr [(''ocr'', [(''status'', JStr ''error''), (''error'', JStr ''disk full'')]),
             (''context'', [(''status'', JStr ''success'')])],
        \<lparr>results = [(''ocr'', [(''status'', JStr ''error''), (''error'', JStr ''disk full'')]),
                    (''context'', [(''status'', JStr ''success'')])],
         world = [''run_ocr_step'', ''run_context_step'']\<rparr>)"
  using run_fault_isolation [of raising_steps "Some [''ocr'', ''context'']" "\<lparr>results = [], world = []\<rparr>"]
  by (simp add: steps_to_run_def run_def all_steps_def raising_steps_def logging_steps_def
        log_step_def)

text \<open>
  Claim C7 (unknown stage fails fast). When the requested list holds a name that is not a
  key of \<open>all_steps\<close>, \<open>run\<close> raises the \<^verbatim>\<open>ValueError\<close> that carries the invalid
  entries (in request order) and the list of valid names, and the processor, its results
  and the state the steps work on are what they were: no step function has been called.
\<close>

theorem run_unknown_stage_fails_fast:
  assumes "\<exists>s\<in>set ss. s \<notin> {''ocr'', ''context'', ''enhance'', ''table''}"
  shows "run sf (Some ss) p =
           (Inl (InvalidStepNames
                   (filter (\<lambda>s. s \<notin> {''ocr'', ''context'', ''enhance'', ''table''}) ss)
                   [''ocr'', ''context'', ''enhance'', ''table'']), p)"
proof -
  have eq: "\<And>s. (map_of (all_steps sf) s = None) = (s \<notin> {''ocr'', ''context'', ''enhance'', ''table''})"
    by (simp add: map_of_eq_None_iff all_steps_def)
  from assms have "filter (\<lambda>s. s \<notin> {''ocr'', ''context'', ''enhance'', ''table''}) ss \<noteq> []"
    by (simp add: filter_empty_conv)
  then show ?thesis by (simp add: run_def eq valid_names)
qed

theorem run_unknown_stage_fails_fast_witness:
  "(\<exists>s\<in>set [''ocr'', ''tabel'']. s \<notin> {''ocr'', ''context'', ''enhance'', ''table''})
   \<and> run logging_steps (Some [''ocr'', ''tabel'']) \<lparr>results = [], world = []\<rparr> =
       (Inl (InvalidStepNames [''tabel''] [''ocr'', ''context'', ''enhance'', ''table'']),
        \<lparr>results = [], world = []\<rparr>)"
  using run_unknown_stage_fails_fast [of "[''ocr'', ''tabel'']" logging_steps "\<lparr>results = [], world = []\<rparr>"]
  by simp

text \<open>
  Claim C6 (default stage selection), as stated: with no stage subset the processor would
  run six stages, among them table-structure correction and image semantic metadata.
  On six step functions that log their names, the default run calls four of them;
  \<^verbatim>\<open>run_improve_table_step\<close> and \<^verbatim>\<open>run_image_step\<close> are never called.
\<close>

theorem run_default_skips_image_and_improve_table:
  "world (snd (run logging_steps None \<lparr>results = [], world = []\<rparr>)) =
     [''run_ocr_step'', ''run_context_step'', ''run_enhance_step'', ''run_table_step'']"
  by (simp add: run_def all_steps_def logging_steps_def log_step_def)

text \<open>
  Claim C6, amended: with no stage subset, \<open>run\<close> runs the four stages registered in
  \<open>all_steps\<close> (extraction \<^verbatim>\<open>ocr\<close>, context generation \<^verbatim>\<open>context\<close>, flag
  enhancement \<^verbatim>\<open>enhance\<close>, table semantic metadata \<^verbatim>\<open>table\<close>) in that fixed order,
  records a result for each, and behaves as the run that requests these four by name.
\<close>

theorem run_default_four_stages:
  "\<exists>res. run sf None p =
     (Inr res,
      \<lparr>results = res,
       world = snd (table_step sf (snd (enhance_step sf (snd (context_step sf
                 (snd (ocr_step sf (world p)))))))) \<rparr>)
     \<and> map_of res ''ocr'' \<noteq> None \<and> map_of res ''context'' \<noteq> None
     \<and> map_of res ''enhance'' \<noteq> None \<and> map_of res ''table'' \<noteq> None
     \<and> run sf None p = run sf (Some [''ocr'', ''context'', ''enhance'', ''table'']) p"
proof -
  have names: "steps_to_run sf None = [''ocr'', ''context'', ''enhance'', ''table'']"
    by (simp add: steps_to_run_def valid_names)
  have sub: "set [''ocr'', ''context'', ''enhance'', ''table''] \<subseteq> set (map fst (all_steps sf))"
    by (simp add: valid_names)
  have r: "run sf None p = execute_steps (all_steps sf) [''ocr'', ''context'', ''enhance'', ''table''] p"
    by (simp add: run_def valid_names)
  have r': "run sf (Some [''ocr'', ''context'', ''enhance'', ''table'']) p =
            execute_steps (all_steps sf) [''ocr'', ''context'', ''enhance'', ''table''] p"
    by (simp add: run_def all_steps_def)
  from execute_steps_valid[OF sub, of p] obtain res where
    e: "execute_steps (all_steps sf) [''ocr'', ''context'', ''enhance'', ''table''] p =
          (Inr res, \<lparr>results = res,
             world = world_after sf [''ocr'', ''context'', ''enhance'', ''table''] (world p)\<rparr>)"
    by blast
  have w: "world_after sf [''ocr'', ''context'', ''enhance'', ''table''] (world p) =
           snd (table_step sf (snd (enhance_step sf (snd (context_step sf
                 (snd (ocr_step sf (world p))))))))"
    by (simp add: world_after_def step_func_of_def all_steps_def)
  from execute_steps_keys[OF e] have "set [''ocr'', ''context'', ''enhance'', ''table''] \<subseteq> fst ` set res"
    by simp
  hence k: "map_of res ''ocr'' \<noteq> None \<and> map_of res ''context'' \<noteq> None
     \<and> map_of res ''enhance'' \<noteq> None \<and> map_of res ''table'' \<noteq> None"
    by (simp add: map_of_eq_None_iff)
  from r r' e w k show ?thesis by simp
qed

section \<open>Properties of sub-element correlation\<close>

lemma then_do_Inr: "then_do r f = Inr y \<longleftrightarrow> (\<exists>v. r = Inr v \<and> f v = Inr y)"
  by (cases r) (simp_all add: then_do_def)

lemma enhance_elements_pointwise:
  "enhance_elements m elems = Inr elems' \<Longrightarrow>
   length elems' = length elems \<and> (\<forall>i<length elems. enhance_element m (elems ! i) = Inr (elems' ! i))"
proof (induction elems arbitrary: elems')
  case Nil
  then show ?case by simp
next
  case (Cons a elems)
  from Cons.prems obtain a' r' where a: "enhance_element m a = Inr a'"
    and r: "enhance_elements m elems = Inr r'" and e: "elems' = a' # r'"
    by (auto simp: then_do_Inr)
  from Cons.IH[OF r] have ih: "length r' = length elems"
    "\<forall>i<length elems. enhance_element m (elems ! i) = Inr (r' ! i)" by simp_all
  show ?case using a e ih by (auto simp: nth_Cons split: nat.splits)
qed

lemma copy_if_truthy_other: "k' \<noteq> k \<Longrightarrow> map_of (copy_if_truthy md k e) k' = map_of e k'"
  by (simp add: copy_if_truthy_def update_conv')

lemma copy_if_truthy_same:
  "map_of (copy_if_truthy md k e) k =
     (if truthy (dict_get md k JNull) then Some (dict_get md k JNull) else map_of e k)"
  by (simp add: copy_if_truthy_def update_conv')

lemma merge_unique_other:
  "merge_unique md k e = Inr e' \<Longrightarrow> k' \<noteq> k \<Longrightarrow> map_of e' k' = map_of e k'"
  by (auto simp: merge_unique_def then_do_Inr update_conv')

lemma enhance_matched_unfold:
  "enhance_matched md e =
      then_do (merge_unique md ''keywords'' (base_fields md e)) (\<lambda>e5.
      then_do (merge_unique md ''entities'' e5) (\<lambda>e6. Inr (extra_fields md e6)))"
  unfolding enhance_matched_def Let_def base_fields_def extra_fields_def ..

lemma enhance_matched_steps:
  assumes "enhance_matched md e = Inr e'"
  obtains e5 e6 where "merge_unique md ''keywords'' (base_fields md e) = Inr e5"
    and "merge_unique md ''entities'' e5 = Inr e6" and "e' = extra_fields md e6"
  using assms unfolding enhance_matched_unfold then_do_Inr by blast

lemma enhance_matched_guarded:
  assumes "enhance_matched md e = Inr e'" and "k \<in> set guarded_fields"
  shows "map_of e' k =
           (if truthy (dict_get md k JNull) then Some (dict_get md k JNull) else map_of e k)"
proof -
  from assms(1) obtain e5 e6 where
    m1: "merge_unique md ''keywords'' (base_fields md e) = Inr e5"
    and m2: "merge_unique md ''entities'' e5 = Inr e6"
    and r: "e' = extra_fields md e6"
    by (rule enhance_matched_steps)
  have e4k: "map_of (base_fields md e) k = (if k = ''title'' \<or> k = ''summary'' then
       (if truthy (dict_get md k JNull) then Some (dict_get md k JNull) else map_of e k) else map_of e k)"
    if "k \<noteq> ''image_type''" "k \<noteq> ''natural_description''" for k
    using that by (auto simp: base_fields_def copy_if_truthy_def update_conv')
  have "\<forall>k\<in>set guarded_fields. map_of e' k =
           (if truthy (dict_get md k JNull) then Some (dict_get md k JNull) else map_of e k)"
    unfolding guarded_fields_def
    by (simp add: r extra_fields_def copy_if_truthy_other copy_if_truthy_same
        merge_unique_other[OF m2] merge_unique_other[OF m1] e4k)
  with assms(2) show ?thesis by blast
qed

lemma enhance_element_cases:
  assumes "enhance_element m (JObj e) = Inr el'"
  shows "el' = JObj e \<or> (\<exists>md e'. el' = JObj e' \<and> enhance_matched md e = Inr e')"
  using assms unfolding enhance_element_def
  by (auto simp: then_do_Inr split: if_splits json.splits option.splits prod.splits)

lemma enhance_whole_cases:
  assumes "enhance_content_elements_with_image_metadata cm = Inr cm'"
    and "map_of cm ''content_elements'' = Some (JArr elems)"
  shows "cm' = cm \<or>
    (\<exists>v records m elems'. map_of cm ''image_metadata'' = Some v \<and> truthy v
       \<and> py_iter v = Inr records \<and> image_metadata_map records [] = Inr m
       \<and> enhance_elements m elems = Inr elems'
       \<and> cm' = AList.update ''content_elements'' (JArr elems') cm)"
  using assms unfolding enhance_content_elements_with_image_metadata_def
  by (auto simp: then_do_Inr split: option.splits if_splits)

text \<open>
  On fields that are lists of strings (an absent field counts as the empty list) the two
  set merges of the loop body unite the element's and the record's keywords and entities,
  without repetition.
\<close>

lemma py_set_update_strings:
  "\<exists>r. py_set_update (map JStr s) (map JStr xs) = Inr (map JStr r)
       \<and> set r = set s \<union> set xs \<and> (distinct s \<longrightarrow> distinct r)"
proof (induction xs arbitrary: s)
  case Nil
  show ?case by (intro exI[of _ s]) simp
next
  case (Cons x xs)
  have key: "hash_key (JStr x) \<in> set (map hash_key (map JStr s)) \<longleftrightarrow> x \<in> set s"
    by (auto simp: image_iff)
  show ?case
  proof (cases "x \<in> set s")
    case True
    from Cons.IH[of s] obtain r where
      "py_set_update (map JStr s) (map JStr xs) = Inr (map JStr r)"
      "set r = set s \<union> set xs" "distinct s \<longrightarrow> distinct r" by blast
    with True key show ?thesis by (intro exI[of _ r]) auto
  next
    case False
    from Cons.IH[of "s @ [x]"] obtain r where
      "py_set_update (map JStr (s @ [x])) (map JStr xs) = Inr (map JStr r)"
      "set r = set (s @ [x]) \<union> set xs" "distinct (s @ [x]) \<longrightarrow> distinct r" by blast
    with False key show ?thesis by (intro exI[of _ r]) auto
  qed
qed

lemma py_set_strings:
  "\<exists>r. py_set (JArr (map JStr xs)) = Inr (map JStr r) \<and> set r = set xs \<and> distinct r"
  using py_set_update_strings[of "[]" xs] by (simp add: py_set_def then_do_def)

lemma merge_unique_strings:
  assumes "dict_get element k (JArr []) = JArr (map JStr old)"
    and "dict_get matched k (JArr []) = JArr (map JStr new)"
  shows "\<exists>r. merge_unique matched k element = Inr (AList.update k (JArr (map JStr r)) element)
           \<and> distinct r \<and> set r = set old \<union> set new"
proof -
  from py_set_strings[of old] obtain a where
    a: "py_set (JArr (map JStr old)) = Inr (map JStr a)" "set a = set old" "distinct a" by blast
  from py_set_strings[of new] obtain b where
    b: "py_set (JArr (map JStr new)) = Inr (map JStr b)" "set b = set new" "distinct b" by blast
  from py_set_update_strings[of a b] obtain r where
    r: "py_set_update (map JStr a) (map JStr b) = Inr (map JStr r)"
       "set r = set a \<union> set b" "distinct a \<longrightarrow> distinct r" by blast
  from a b r assms
  have "merge_unique matched k element = Inr (AList.update k (JArr (map JStr r)) element)"
    by (simp add: merge_unique_def then_do_def)
  with a b r show ?thesis by blast
qed

lemma base_fields_keeps:
  "k \<notin> {''image_type'', ''natural_description'', ''title'', ''summary''} \<Longrightarrow>
   map_of (base_fields md e) k = map_of e k"
  by (simp add: base_fields_def copy_if_truthy_other update_conv')

lemma extra_fields_keeps:
  "k \<notin> set guarded_fields \<Longrightarrow> map_of (extra_fields md e) k = map_of e k"
  by (simp add: extra_fields_def guarded_fields_def copy_if_truthy_other)

lemma enhance_matched_unites:
  assumes "dict_get e ''keywords'' (JArr []) = JArr (map JStr ks)"
    and "dict_get md ''keywords'' (JArr []) = JArr (map JStr ks')"
    and "dict_get e ''entities'' (JArr []) = JArr (map JStr es)"
    and "dict_get md ''entities'' (JArr []) = JArr (map JStr es')"
  shows "\<exists>e' r q. enhance_matched md e = Inr e'
           \<and> map_of e' ''keywords'' = Some (JArr (map JStr r))
           \<and> distinct r \<and> set r = set ks \<union> set ks'
           \<and> map_of e' ''entities'' = Some (JArr (map JStr q))
           \<and> distinct q \<and> set q = set es \<union> set es'"
proof -
  let ?b = "base_fields md e"
  have "dict_get ?b ''keywords'' (JArr []) = JArr (map JStr ks)"
    using assms(1) by (simp add: dict_get_def base_fields_keeps)
  from merge_unique_strings[OF this assms(2)] obtain r where
    m1: "merge_unique md ''keywords'' ?b = Inr (AList.update ''keywords'' (JArr (map JStr r)) ?b)"
    and r: "distinct r" "set r = set ks \<union> set ks'" by blast
  let ?e5 = "AList.update ''keywords'' (JArr (map JStr r)) ?b"
  have "dict_get ?e5 ''entities'' (JArr []) = JArr (map JStr es)"
    using assms(3) by (simp add: dict_get_def base_fields_keeps update_conv')
  from merge_unique_strings[OF this assms(4)] obtain q where
    m2: "merge_unique md ''entities'' ?e5 = Inr (AList.update ''entities'' (JArr (map JStr q)) ?e5)"
    and q: "distinct q" "set q = set es \<union> set es'" by blast
  let ?e6 = "AList.update ''entities'' (JArr (map JStr q)) ?e5"
  have res: "enhance_matched md e = Inr (extra_fields md ?e6)"
    by (simp add: enhance_matched_unfold m1 m2 then_do_def)
  have k: "map_of (extra_fields md ?e6) ''keywords'' = Some (JArr (map JStr r))"
    by (simp add: extra_fields_keeps guarded_fields_def update_conv')
  have n: "map_of (extra_fields md ?e6) ''entities'' = Some (JArr (map JStr q))"
    by (simp add: extra_fields_keeps guarded_fields_def update_conv')
  from res k n r q show ?thesis by blast
qed

text \<open>
  Claim C1 (sub-element correlation). The claim speaks of every matched record. The
  response schema lets a record carry \<^verbatim>\<open>"entities": null\<close>; on such a record, matched by
  the figure element \<^verbatim>\<open>figure-12-2\<close> through the \<^verbatim>\<open>image-\<close> spelling, the merge raises
  \<^verbatim>\<open>TypeError\<close> at \<^verbatim>\<open>set(matched_image_meta.get("entities", []))\<close> instead of returning
  the element with the united keywords. On the same record without the \<^verbatim>\<open>entities\<close>
  key it returns, with the keywords \<^verbatim>\<open>a\<close>, \<^verbatim>\<open>b\<close>, \<^verbatim>\<open>c\<close> and no entities.
\<close>

theorem correlation_raises_on_null_entities:
  "enhance_content_elements_with_image_metadata (context_with null_entities_record) = Inl TypeError
   \<and> enhance_content_elements_with_image_metadata (context_with no_entities_record) =
       Inr [(''content_elements'',
              JArr [JObj [(''element_id'', JStr ''figure-12-2''), (''type'', JStr ''figure''),
                          (''keywords'', JArr [JStr ''a'', JStr ''b'', JStr ''c'']),
                          (''image_type'', JStr ''diagram''),
                          (''natural_description'', JStr ''A pump''),
                          (''title'', JStr ''Pump assembly''),
                          (''summary'', JStr ''Exploded view''),
                          (''entities'', JArr [])]]),
            (''image_metadata'', JArr [JObj no_entities_record])]"
  unfolding context_with_def null_entities_record_def no_entities_record_def figure_element_def
  by code_simp

text \<open>
  Claim C10 (the guards of correlation). When \<^verbatim>\<open>image_metadata\<close> is absent or falsy
  (the empty list in particular), or \<^verbatim>\<open>content_elements\<close> is absent, the function
  returns its argument unchanged.
\<close>

theorem guard_identity:
  assumes "map_of cm ''image_metadata'' = None
           \<or> (\<exists>v. map_of cm ''image_metadata'' = Some v \<and> \<not> truthy v)
           \<or> map_of cm ''content_elements'' = None"
  shows "enhance_content_elements_with_image_metadata cm = Inr cm"
  using assms unfolding enhance_content_elements_with_image_metadata_def
  by (auto split: option.splits)

theorem guard_identity_witness:
  "(map_of [(''page_number'', JNum 3), (''image_metadata'', JArr [])] ''image_metadata'' = None
     \<or> (\<exists>v. map_of [(''page_number'', JNum 3), (''image_metadata'', JArr [])] ''image_metadata'' = Some v
            \<and> \<not> truthy v)
     \<or> map_of [(''page_number'', JNum 3), (''image_metadata'', JArr [])] ''content_elements'' = None)
   \<and> enhance_content_elements_with_image_metadata
         [(''page_number'', JNum 3), (''image_metadata'', JArr [])] =
       Inr [(''page_number'', JNum 3), (''image_metadata'', JArr [])]"
  using guard_identity [of "[(''page_number'', JNum 3), (''image_metadata'', JArr [])]"]
  by simp

text \<open>
  Claim C5 (no merge field is overwritten with an empty value), as stated, names
  \<^verbatim>\<open>image_type\<close> among the protected fields. The element of \<open>demo_context\<close> has the
  \<^verbatim>\<open>image_type\<close> \<^verbatim>\<open>diagram\<close>, its matched record has none, and after the merge the
  element's \<^verbatim>\<open>image_type\<close> is the empty string.
\<close>

theorem image_type_overwritten_with_empty:
  "enhance_content_elements_with_image_metadata demo_context = Inr demo_enhanced
   \<and> map_of demo_element ''image_type'' = Some (JStr ''diagram'')
   \<and> map_of demo_record ''image_type'' = None
   \<and> map_of demo_element_enhanced ''image_type'' = Some (JStr '''')"
  unfolding demo_context_def demo_enhanced_def demo_element_def demo_record_def
    demo_element_enhanced_def
  by code_simp

lemma image_metadata_map_values:
  "image_metadata_map records m0 = Inr m \<Longrightarrow> map_of m k = Some v \<Longrightarrow>
   map_of m0 k = Some v
   \<or> (v \<in> set records \<and> (\<exists>d. v = JObj d \<and> dict_get d ''image_id'' (JStr '''') = JStr k))"
proof (induction records arbitrary: m0)
  case Nil
  then show ?case by simp
next
  case (Cons r rs)
  from Cons.prems(1) obtain d where r: "r = JObj d"
    by (cases r) simp_all
  show ?case
  proof (cases "dict_get d ''image_id'' (JStr '''')")
    case (JStr image_id)
    with Cons.prems(1) r
    have "image_metadata_map rs (AList.update image_id r m0) = Inr m" by simp
    from Cons.IH[OF this Cons.prems(2)]
    have "map_of (AList.update image_id r m0) k = Some v
          \<or> (v \<in> set rs \<and> (\<exists>d. v = JObj d \<and> dict_get d ''image_id'' (JStr '''') = JStr k))" .
    then show ?thesis
    proof
      assume "map_of (AList.update image_id r m0) k = Some v"
      then show ?thesis using r JStr by (cases "k = image_id") (auto simp: update_conv')
    next
      assume "v \<in> set rs \<and> (\<exists>d. v = JObj d \<and> dict_get d ''image_id'' (JStr '''') = JStr k)"
      then show ?thesis by auto
    qed
  next
    case JNull
    with Cons.prems(1) r have "image_metadata_map rs m0 = Inr m" by simp
    from Cons.IH[OF this Cons.prems(2)] show ?thesis by auto
  next
    case (JBool b)
    with Cons.prems(1) r have "image_metadata_map rs m0 = Inr m" by simp
    from Cons.IH[OF this Cons.prems(2)] show ?thesis by auto
  next
    case (JNum n)
    with Cons.prems(1) r have "image_metadata_map rs m0 = Inr m" by simp
    from Cons.IH[OF this Cons.prems(2)] show ?thesis by auto
  next
    case (JArr xs)
    with Cons.prems(1) r show ?thesis by simp
  next
    case (JObj kvs)
    with Cons.prems(1) r show ?thesis by simp
  qed
qed

lemma probed_record:
  assumes "image_metadata_map records [] = Inr m"
    and "probe_image_ids m page_num index = Some v"
  shows "v \<in> set records \<and> (\<exists>d. v = JObj d \<and> d \<noteq> []
           \<and> (dict_get d ''image_id'' (JStr '''') = JStr (image_spelling page_num index)
              \<or> dict_get d ''image_id'' (JStr '''') = JStr (figure_spelling page_num index)))"
proof -
  from assms(2) consider "map_of m (image_spelling page_num index) = Some v"
    | "map_of m (figure_spelling page_num index) = Some v"
    by (auto simp: probe_image_ids_def split: option.splits)
  then obtain k where k: "map_of m k = Some v"
    "k = image_spelling page_num index \<or> k = figure_spelling page_num index" by cases auto
  from image_metadata_map_values[OF assms(1) k(1)] obtain d where
    d: "v \<in> set records" "v = JObj d" "dict_get d ''image_id'' (JStr '''') = JStr k" by auto
  from k(2) have "k \<noteq> []" by (auto simp: image_spelling_def figure_spelling_def)
  with d(3) have "d \<noteq> []" by (auto simp: dict_get_def)
  with d k(2) show ?thesis by auto
qed

lemma enhance_unfold_lists:
  assumes "map_of cm ''image_metadata'' = Some (JArr records)" and "records \<noteq> []"
    and "map_of cm ''content_elements'' = Some (JArr elems)"
  shows "enhance_content_elements_with_image_metadata cm =
           then_do (image_metadata_map records []) (\<lambda>m.
           then_do (enhance_elements m elems) (\<lambda>elems'.
             Inr (AList.update ''content_elements'' (JArr elems') cm)))"
  using assms by (simp add: enhance_content_elements_with_image_metadata_def then_do_def)

lemma enhance_element_matched:
  assumes "map_of e ''type'' = Some (JStr ''figure'')"
    and "dict_get e ''element_id'' (JStr '''') = JStr element_id"
    and "match_element_id element_id = Some (page_num, index)"
    and "probe_image_ids m page_num index = Some (JObj matched)"
    and "matched \<noteq> []"
  shows "enhance_element m (JObj e) =
           then_do (enhance_matched matched e) (\<lambda>e'. Inr (JObj e'))"
  using assms by (simp add: enhance_element_def)

lemma enhance_matched_unguarded:
  assumes "enhance_matched md e = Inr e'"
  shows "map_of e' ''image_type'' = Some (dict_get md ''image_type'' (JStr ''''))
       \<and> map_of e' ''natural_description'' =
           Some (dict_get md ''natural_description'' (JStr ''''))"
proof -
  from assms obtain e5 e6 where
    m1: "merge_unique md ''keywords'' (base_fields md e) = Inr e5"
    and m2: "merge_unique md ''entities'' e5 = Inr e6"
    and r: "e' = extra_fields md e6"
    by (rule enhance_matched_steps)
  have b: "map_of (base_fields md e) ''image_type'' = Some (dict_get md ''image_type'' (JStr ''''))"
    "map_of (base_fields md e) ''natural_description'' =
       Some (dict_get md ''natural_description'' (JStr ''''))"
    by (simp_all add: base_fields_def copy_if_truthy_other update_conv')
  show ?thesis
    by (simp add: r extra_fields_keeps guarded_fields_def
        merge_unique_other[OF m2] merge_unique_other[OF m1] b)
qed

text \<open>
  Claim C5, amended: for every content element enhanced by sub-element correlation, each
  of the fields copied behind a truth test (\<^verbatim>\<open>title\<close>, \<^verbatim>\<open>summary\<close>, \<^verbatim>\<open>dates\<close>,
  \<^verbatim>\<open>locations\<close>, \<^verbatim>\<open>model_name\<close>, \<^verbatim>\<open>component_type\<close>, \<^verbatim>\<open>model_applicability\<close>,
  \<^verbatim>\<open>application_context\<close>, \<^verbatim>\<open>related_tables\<close>) keeps the element's original value
  whenever the matched record's value is absent or empty (falsy), and takes the record's
  value otherwise: such a field is never replaced by an empty one. \<^verbatim>\<open>image_type\<close> and
  \<^verbatim>\<open>natural_description\<close> are assigned unconditionally from the matched record, with the
  empty string when the record lacks them. The matched record is the one that the probe
  of the lookup built from \<^verbatim>\<open>image_metadata\<close> returns for the element's identifier; it
  is a record of that list.
\<close>

theorem guarded_fields_never_emptied:
  assumes "enhance_content_elements_with_image_metadata cm = Inr cm'"
    and "map_of cm ''image_metadata'' = Some (JArr records)" and "records \<noteq> []"
    and "map_of cm ''content_elements'' = Some (JArr elems)"
    and "image_metadata_map records [] = Inr m"
    and "i < length elems" and "elems ! i = JObj e"
    and "map_of e ''type'' = Some (JStr ''figure'')"
    and "dict_get e ''element_id'' (JStr '''') = JStr element_id"
    and "match_element_id element_id = Some (page_num, index)"
    and "probe_image_ids m page_num index = Some (JObj matched)"
  shows "JObj matched \<in> set records
       \<and> (\<exists>elems' e'. map_of cm' ''content_elements'' = Some (JArr elems')
             \<and> length elems' = length elems \<and> elems' ! i = JObj e'
             \<and> (\<forall>k\<in>set guarded_fields.
                   map_of e' k =
                     (if truthy (dict_get matched k JNull) then Some (dict_get matched k JNull)
                      else map_of e k))
             \<and> map_of e' ''image_type'' = Some (dict_get matched ''image_type'' (JStr ''''))
             \<and> map_of e' ''natural_description'' =
                 Some (dict_get matched ''natural_description'' (JStr '''')))"
proof -
  from probed_record[OF assms(5,11)]
  have rec: "JObj matched \<in> set records" and ne: "matched \<noteq> []" by auto
  from assms(1)[unfolded enhance_unfold_lists[OF assms(2,3,4)] then_do_Inr] assms(5)
  obtain elems' where en: "enhance_elements m elems = Inr elems'"
    and cm': "cm' = AList.update ''content_elements'' (JArr elems') cm" by auto
  from enhance_elements_pointwise[OF en] assms(6,7)
  have len: "length elems' = length elems"
    and el: "enhance_element m (JObj e) = Inr (elems' ! i)" by auto
  have ce: "map_of cm' ''content_elements'' = Some (JArr elems')"
    by (simp add: cm' update_conv')
  from el[unfolded enhance_element_matched[OF assms(8,9,10,11) ne] then_do_Inr]
  obtain e' where em: "enhance_matched matched e = Inr e'" and e': "elems' ! i = JObj e'"
    by auto
  have g: "\<forall>k\<in>set guarded_fields.
             map_of e' k =
               (if truthy (dict_get matched k JNull) then Some (dict_get matched k JNull)
                else map_of e k)"
    using enhance_matched_guarded[OF em] by blast
  from enhance_matched_unguarded[OF em] rec ce len e' g show ?thesis by blast
qed

theorem guarded_fields_never_emptied_witness:
  "enhance_content_elements_with_image_metadata demo_context = Inr demo_enhanced
   \<and> image_metadata_map [JObj demo_record] [] = Inr [(''image-12-2'', JObj demo_record)]
   \<and> match_element_id ''figure-12-2'' = Some (''12'', ''2'')
   \<and> probe_image_ids [(''image-12-2'', JObj demo_record)] ''12'' ''2'' = Some (JObj demo_record)
   \<and> map_of demo_element ''title'' = Some (JStr ''Pump'')
   \<and> dict_get demo_record ''title'' JNull = JStr ''''
   \<and> map_of demo_element_enhanced ''title'' = Some (JStr ''Pump'')
   \<and> map_of demo_element_enhanced ''image_type'' = Some (JStr '''')"
proof -
  have h1: "enhance_content_elements_with_image_metadata demo_context = Inr demo_enhanced"
    unfolding demo_context_def demo_enhanced_def demo_element_def demo_record_def
      demo_element_enhanced_def
    by code_simp
  have h2: "map_of demo_context ''image_metadata'' = Some (JArr [JObj demo_record])"
    by (simp add: demo_context_def)
  have h3: "[JObj demo_record] \<noteq> []" by simp
  have h4: "map_of demo_context ''content_elements'' = Some (JArr [JObj demo_element])"
    by (simp add: demo_context_def)
  have h5: "image_metadata_map [JObj demo_record] [] = Inr [(''image-12-2'', JObj demo_record)]"
    by (simp add: demo_record_def dict_get_def)
  have h6: "(0::nat) < length [JObj demo_element]" by simp
  have h7: "[JObj demo_element] ! 0 = JObj demo_element" by simp
  have h8: "map_of demo_element ''type'' = Some (JStr ''figure'')"
    by (simp add: demo_element_def)
  have h9: "dict_get demo_element ''element_id'' (JStr '''') = JStr ''figure-12-2''"
    by (simp add: demo_element_def dict_get_def)
  have h10: "match_element_id ''figure-12-2'' = Some (''12'', ''2'')"
    by code_simp
  have h11: "probe_image_ids [(''image-12-2'', JObj demo_record)] ''12'' ''2''
               = Some (JObj demo_record)"
    by (simp add: probe_image_ids_def image_spelling_def)
  have t: "''title'' \<in> set guarded_fields" by (simp add: guarded_fields_def)
  have f: "dict_get demo_record ''title'' JNull = JStr ''''"
    by (simp add: demo_record_def dict_get_def)
  have o: "map_of demo_element ''title'' = Some (JStr ''Pump'')"
    by (simp add: demo_element_def)
  have i: "dict_get demo_record ''image_type'' (JStr '''') = JStr ''''"
    by (simp add: demo_record_def dict_get_def)
  from guarded_fields_never_emptied[OF h1 h2 h3 h4 h5 h6 h7 h8 h9 h10 h11]
  obtain elems' e' where
    c: "map_of demo_enhanced ''content_elements'' = Some (JArr elems')"
    and e: "elems' ! 0 = JObj e'"
    and g: "\<forall>k\<in>set guarded_fields.
              map_of e' k =
                (if truthy (dict_get demo_record k JNull) then Some (dict_get demo_record k JNull)
                 else map_of demo_element k)"
    and u: "map_of e' ''image_type'' = Some (dict_get demo_record ''image_type'' (JStr ''''))"
    by blast
  from c have "elems' = [JObj demo_element_enhanced]" by (simp add: demo_enhanced_def)
  with e have "e' = demo_element_enhanced" by simp
  with g t f o u i have "map_of demo_element_enhanced ''title'' = Some (JStr ''Pump'')"
    and "map_of demo_element_enhanced ''image_type'' = Some (JStr '''')" by auto
  with h1 h5 h10 h11 o f show ?thesis by blast
qed

section \<open>Properties of flag enhancement\<close>

lemma dict_update_flags:
  "map_of (dict_update [(''has_tables'', v1), (''has_figures'', v2), (''has_text_blocks'', v3),
        (''table_count'', v4), (''figure_count'', v5), (''text_block_count'', v6),
        (''content_summary'', v7)] d) k =
     (if k = ''content_summary'' then Some v7
      else if k = ''text_block_count'' then Some v6
      else if k = ''figure_count'' then Some v5
      else if k = ''table_count'' then Some v4
      else if k = ''has_text_blocks'' then Some v3
      else if k = ''has_figures'' then Some v2
      else if k = ''has_tables'' then Some v1
      else map_of d k)"
  by (simp add: dict_update_def update_conv')

text \<open>
  Claim C4 (flag enhancement). For a context metadata dictionary and a structural metadata
  dictionary whose \<^verbatim>\<open>tables\<close>, \<^verbatim>\<open>figures\<close> and \<^verbatim>\<open>text_blocks\<close> (an absent key counts
  as the empty list) are lists, the function returns a dictionary in which the three
  flags say whether the lists are non-empty, the three counts are their lengths,
  \<^verbatim>\<open>content_summary\<close> holds the three lists as they are, and every other key has the
  value it has in the context metadata. In particular a non-empty \<^verbatim>\<open>tables\<close> list gives
  \<^verbatim>\<open>has_tables = true\<close>.
\<close>

theorem enhance_context_metadata_flags:
  assumes "json_load parse fs context_metadata_path = Inr (JObj context)"
    and "json_load parse fs basic_metadata_path = Inr (JObj basic)"
    and "dict_get basic ''tables'' (JArr []) = JArr tables"
    and "dict_get basic ''figures'' (JArr []) = JArr figures"
    and "dict_get basic ''text_blocks'' (JArr []) = JArr text_blocks"
  shows "\<exists>enhanced.
      enhance_context_metadata parse fs context_metadata_path basic_metadata_path = Inr enhanced
    \<and> map_of enhanced ''has_tables'' = Some (JBool (length tables > 0))
    \<and> map_of enhanced ''has_figures'' = Some (JBool (length figures > 0))
    \<and> map_of enhanced ''has_text_blocks'' = Some (JBool (length text_blocks > 0))
    \<and> map_of enhanced ''table_count'' = Some (JNum (int (length tables)))
    \<and> map_of enhanced ''figure_count'' = Some (JNum (int (length figures)))
    \<and> map_of enhanced ''text_block_count'' = Some (JNum (int (length text_blocks)))
    \<and> map_of enhanced ''content_summary'' =
          Some (JObj [(''tables'', JArr tables), (''figures'', JArr figures),
                      (''text_blocks'', JArr text_blocks)])
    \<and> (\<forall>k. k \<notin> set flag_keys \<longrightarrow> map_of enhanced k = map_of context k)
    \<and> (tables \<noteq> [] \<longrightarrow> map_of enhanced ''has_tables'' = Some (JBool True))"
  using assms
  by (simp add: enhance_context_metadata_def then_do_def dict_update_flags flag_keys_def)

theorem enhance_context_metadata_flags_witness:
  "json_load demo_parse demo_files ''context_metadata_page_3.json'' =
     Inr (JObj [(''title'', JStr ''Valves''), (''has_tables'', JBool False)])
   \<and> (\<exists>enhanced.
        enhance_context_metadata demo_parse demo_files
          ''context_metadata_page_3.json'' ''metadata_page_3.json'' = Inr enhanced
      \<and> map_of enhanced ''has_tables'' = Some (JBool True)
      \<and> map_of enhanced ''table_count'' = Some (JNum 2)
      \<and> map_of enhanced ''has_figures'' = Some (JBool False)
      \<and> map_of enhanced ''title'' = Some (JStr ''Valves''))"
proof -
  have h1: "json_load demo_parse demo_files ''context_metadata_page_3.json'' =
     Inr (JObj [(''title'', JStr ''Valves''), (''has_tables'', JBool False)])"
    by (simp add: json_load_def open_read_def then_do_def demo_parse_def demo_files_def)
  have h2: "json_load demo_parse demo_files ''metadata_page_3.json'' =
     Inr (JObj [(''page_number'', JNum 3), (''page_image'', JStr ''page_3_full.png''),
                (''tables'', JArr [JStr ''table-3-1'', JStr ''table-3-2'']),
                (''figures'', JArr []), (''text_blocks'', JArr [JStr ''page_3_text.txt''])])"
    by (simp add: json_load_def open_read_def then_do_def demo_parse_def demo_files_def)
  from enhance_context_metadata_flags[OF h1 h2,
      of "[JStr ''table-3-1'', JStr ''table-3-2'']" "[]" "[JStr ''page_3_text.txt'']"]
  obtain enhanced where
    e: "enhance_context_metadata demo_parse demo_files
          ''context_metadata_page_3.json'' ''metadata_page_3.json'' = Inr enhanced"
    and t: "map_of enhanced ''has_tables'' = Some (JBool True)"
    and c: "map_of enhanced ''table_count'' = Some (JNum 2)"
    and f: "map_of enhanced ''has_figures'' = Some (JBool False)"
    and o: "\<forall>k. k \<notin> set flag_keys \<longrightarrow>
              map_of enhanced k = map_of [(''title'', JStr ''Valves''), (''has_tables'', JBool False)] k"
    by (auto simp: dict_get_def)
  have "''title'' \<notin> set flag_keys" by (simp add: flag_keys_def)
  with o have "map_of enhanced ''title'' = Some (JStr ''Valves'')" by simp
  with h1 e t c f show ?thesis by blast
qed

section \<open>Properties of the context window\<close>

text \<open>
  Claim C2 (context window builder). The claim asks that the file-not-found error is
  raised only when the directory of the current page is missing, and that the page image,
  like the metadata and the text, degrades to an empty value when its file is missing.
  The metadata and text reads are guarded by \<^verbatim>\<open>exists()\<close>; the image read is not. In the
  first store the directory of page 1 exists and its image does not: the call raises
  \<^verbatim>\<open>FileNotFoundError\<close>. In the second store page 1 is complete and the next page has a
  directory without an image: the call for page 1 raises as well.
\<close>

theorem get_page_context_raises_on_missing_image:
  "path_exists store_without_image (PageDir 1)
   \<and> get_page_context c store_without_image 1 = Inl FileNotFoundError
   \<and> path_exists store_neighbour_without_image (PageDir 1)
   \<and> path_exists store_neighbour_without_image (PageImage 1)
   \<and> get_page_context c store_neighbour_without_image 1 = Inl FileNotFoundError"
  by (simp add: get_page_context_def load_page_data_def encode_image_to_data_uri_def
      open_read_def path_exists_def then_do_def store_without_image_def
      store_neighbour_without_image_def)

section \<open>Properties of the context-generation stage\<close>

text \<open>
  Where the configuration object has been given a \<^verbatim>\<open>max_pages\<close> attribute, the skip
  logic does what it is written for: with \<^verbatim>\<open>skip_metadata_if_exists\<close> enabled and a
  context metadata record present for every page of the document, the stage returns the
  result with status \<^verbatim>\<open>skipped\<close> and leaves the state of the artifact store and of the
  model service as it was. The result carries the document's page count under the key
  \<^verbatim>\<open>pages_processed\<close> and has no count of skipped pages.
\<close>

lemma context_step_skips_with_attribute:
  assumes "base_path_exists env w"
    and "pdf_page_count env w = Inr total_pages"
    and "config_max_pages config = Inr max_pages"
    and "skip_metadata_if_exists config"
    and "\<forall>page_num. 1 \<le> page_num \<and> page_num \<le> total_pages
           \<longrightarrow> context_metadata_exists env w page_num"
  shows "run_context_step env config w =
           (Inr [(''status'', JStr ''skipped''),
                 (''message'', JStr ''All pages already have context metadata''),
                 (''pages_processed'', JNum total_pages)], w)"
proof -
  define pages_to_check where
    "pages_to_check = (case max_pages of Some m \<Rightarrow> min m total_pages | None \<Rightarrow> total_pages)"
  have le: "pages_to_check \<le> total_pages"
    by (simp add: pages_to_check_def split: option.splits)
  have "\<forall>page_num\<in>set [1..pages_to_check].
          context_metadata_exists env w page_num \<and> skip_metadata_if_exists config"
    using assms(4,5) le by auto
  hence "filter (\<lambda>page_num. \<not> (context_metadata_exists env w page_num
                                  \<and> skip_metadata_if_exists config)) [1..pages_to_check] = []"
    by (simp add: filter_empty_conv)
  then show ?thesis
    using assms(1,2,3) by (simp add: run_context_step_def Let_def pages_to_check_def)
qed

text \<open>
  A configuration object as the constructor returns it has no \<^verbatim>\<open>max_pages\<close>: once the
  output directory exists and the page count is read, the stage raises
  \<^verbatim>\<open>AttributeError\<close>, whatever the store holds, and changes nothing.
\<close>

lemma context_step_raises_without_attribute:
  assumes "base_path_exists env w"
    and "pdf_page_count env w = Inr total_pages"
  shows "run_context_step env (PipelineConfig base skip_ocr skip_metadata) w =
           (Inl AttributeError, w)"
  using assms
  by (simp add: run_context_step_def config_max_pages_def PipelineConfig_def)

lemma demo_first_run:
  "run_context_step demo_env demo_config ([], 0) =
     (Inr [(''status'', JStr ''success''), (''pages_processed'', JNum 6),
           (''pages_failed'', JNum 0), (''pages_skipped'', JNum 0), (''total_pages'', JNum 6)],
      ([6, 5, 4, 3, 2, 1], 6))"
  by code_simp

text \<open>
  Claim C8 (skip-if-exists). The claim asks that a second run of the stage, with
  \<^verbatim>\<open>skip_metadata_if_exists\<close> enabled and a context metadata record present for every
  page, processes no page and reports all pages as skipped. In the store below all six
  pages have their record. For the configuration that the constructor of
  \<^verbatim>\<open>PipelineConfig\<close> returns, the stage raises \<^verbatim>\<open>AttributeError\<close> at
  \<^verbatim>\<open>config.max_pages\<close> and returns no report. For the same object with the attribute
  \<^verbatim>\<open>max_pages = 6\<close> assigned, it returns the report with status \<^verbatim>\<open>skipped\<close>, in which
  the page count stands under \<^verbatim>\<open>pages_processed\<close>. In both cases the store and the
  number of calls to the model service are unchanged.
\<close>

theorem context_step_raises_on_constructed_config:
  "list_all (context_metadata_exists demo_env ([6, 5, 4, 3, 2, 1], 6)) [1, 2, 3, 4, 5, 6]
   \<and> skip_metadata_if_exists constructed_config
   \<and> run_context_step demo_env constructed_config ([6, 5, 4, 3, 2, 1], 6) =
       (Inl AttributeError, ([6, 5, 4, 3, 2, 1], 6))
   \<and> run_context_step demo_env demo_config ([6, 5, 4, 3, 2, 1], 6) =
       (Inr [(''status'', JStr ''skipped''),
             (''message'', JStr ''All pages already have context metadata''),
             (''pages_processed'', JNum 6)], ([6, 5, 4, 3, 2, 1], 6))"
  by code_simp

section \<open>Properties of the cost ledger\<close>

lemma extended_by_refl: "extended_by t [] t"
  by (simp add: extended_by_def)

lemma extended_by_trans:
  "extended_by t ys t' \<Longrightarrow> extended_by t' zs t'' \<Longrightarrow> extended_by t (ys @ zs) t''"
  by (simp add: extended_by_def)

lemma add_call_extends:
  "\<exists>ys. extended_by t ys (add_call completion_cost t r m call_type)"
proof (cases "completion_cost r")
  case None
  then have "add_call completion_cost t r m call_type = t" by (simp add: add_call_def)
  with extended_by_refl[of t] show ?thesis by auto
next
  case (Some cost)
  then have "extended_by t
      [\<lparr>entry_call_type = call_type, entry_model = m, entry_cost = cost,
        entry_prompt_tokens = usage_tokens r ''prompt_tokens'',
        entry_completion_tokens = usage_tokens r ''completion_tokens'',
        entry_total_tokens = usage_tokens r ''total_tokens''\<rparr>]
      (add_call completion_cost t r m call_type)"
    by (simp add: add_call_def Let_def extended_by_def)
  then show ?thesis ..
qed

lemma chat_extends:
  "\<exists>ys. extended_by (cost_tracker client) ys
          (cost_tracker (snd (chat completion completion_cost client request name call_type)))"
proof (cases "chosen_model client name")
  case None
  then show ?thesis using extended_by_refl[of "cost_tracker client"]
    by (auto simp: chat_def)
next
  case (Some m)
  show ?thesis
  proof (cases "m = []")
    case True
    with Some show ?thesis using extended_by_refl[of "cost_tracker client"]
      by (auto simp: chat_def)
  next
    case False
    show ?thesis
    proof (cases "completion m request")
      case (Inl ex)
      with Some False show ?thesis using extended_by_refl[of "cost_tracker client"]
        by (auto simp: chat_def)
    next
      case (Inr r)
      with Some False add_call_extends[of "cost_tracker client" completion_cost r m call_type]
      show ?thesis by (simp add: chat_def)
    qed
  qed
qed

lemma apply_op_extends:
  assumes "\<not> is_reset op"
  shows "\<exists>ys. extended_by (cost_tracker client) ys
               (cost_tracker (apply_op completion completion_cost client op))"
proof (cases op)
  case (Chat request name call_type)
  then show ?thesis
    using chat_extends[of client completion completion_cost request name call_type] by simp
next
  case GetCostSummary
  then show ?thesis using extended_by_refl[of "cost_tracker client"] by auto
next
  case ResetCostTracking
  with assms show ?thesis by simp
qed

lemma apply_ops_extends:
  "\<forall>op\<in>set ops. \<not> is_reset op \<Longrightarrow>
   \<exists>ys. extended_by (cost_tracker client) ys
          (cost_tracker (apply_ops completion completion_cost ops client))"
proof (induction ops arbitrary: client)
  case Nil
  then show ?case using extended_by_refl[of "cost_tracker client"]
    by (auto simp: apply_ops_def)
next
  case (Cons op ops)
  let ?c = "apply_op completion completion_cost client op"
  from Cons.prems have "\<not> is_reset op" and rest: "\<forall>op\<in>set ops. \<not> is_reset op" by simp_all
  from apply_op_extends[OF this(1), of client completion completion_cost]
  obtain ys where y: "extended_by (cost_tracker client) ys (cost_tracker ?c)" by blast
  from Cons.IH[OF rest, of ?c]
  obtain zs where z: "extended_by (cost_tracker ?c) zs
      (cost_tracker (apply_ops completion completion_cost ops ?c))" by blast
  have "apply_ops completion completion_cost (op # ops) client
        = apply_ops completion completion_cost ops ?c" by (simp add: apply_ops_def)
  with extended_by_trans[OF y z] show ?case by auto
qed

text \<open>
  Claim C9 (cost ledger lifecycle), as stated: every successful call to the model service
  through \<^verbatim>\<open>chat\<close> is appended to the ledger. Here the service answers, \<^verbatim>\<open>chat\<close>
  returns the response, the cost of the response cannot be computed, and the ledger is
  what it was: no call is counted and no entry is added.
\<close>

theorem successful_call_not_recorded:
  "chat demo_completion (\<lambda>r. None) demo_client () None ''chat'' = (Inr demo_response, demo_client)
   \<and> call_count (cost_tracker demo_client) = 0
   \<and> cost_breakdown (cost_tracker demo_client) = []"
  by (simp add: chat_def chosen_model_def demo_client_def demo_completion_def add_call_def
      new_tracker_def)

text \<open>
  Claim C9, amended: for every successful call to the model service through \<^verbatim>\<open>chat\<close>
  whose cost \<^verbatim>\<open>completion_cost\<close> computes, the ledger is appended to: \<^verbatim>\<open>call_count\<close>
  grows by one, the token totals and \<^verbatim>\<open>total_cost\<close> grow by the usage and cost of the
  call, and one breakdown entry with the call's type and model is added; when the cost
  cannot be computed the ledger is left as it was. After any sequence of client
  operations without the explicit reset (calls that succeed or fail, cost summaries) the
  ledger is the earlier ledger with entries appended: \<^verbatim>\<open>call_count\<close> has grown by
  their number, each token total by the sum of their token counts, and \<^verbatim>\<open>total_cost\<close>
  by their costs, added one after the other; so no counter is set back. The reset sets
  every counter to zero and empties the breakdown.
\<close>

theorem chat_ledger_lifecycle:
  assumes "chat completion completion_cost client request name call_type = (Inr r, client')"
  shows "(\<forall>cost. completion_cost r = Some cost \<longrightarrow>
            (\<exists>m. chosen_model client name = Some m
              \<and> call_count (cost_tracker client') = call_count (cost_tracker client) + 1
              \<and> total_cost (cost_tracker client') = total_cost (cost_tracker client) + cost
              \<and> total_prompt_tokens (cost_tracker client') =
                  total_prompt_tokens (cost_tracker client) + usage_tokens r ''prompt_tokens''
              \<and> total_completion_tokens (cost_tracker client') =
                  total_completion_tokens (cost_tracker client)
                    + usage_tokens r ''completion_tokens''
              \<and> total_tokens (cost_tracker client') =
                  total_tokens (cost_tracker client) + usage_tokens r ''total_tokens''
              \<and> cost_breakdown (cost_tracker client') =
                  cost_breakdown (cost_tracker client) @
                    [\<lparr>entry_call_type = call_type, entry_model = m, entry_cost = cost,
                      entry_prompt_tokens = usage_tokens r ''prompt_tokens'',
                      entry_completion_tokens = usage_tokens r ''completion_tokens'',
                      entry_total_tokens = usage_tokens r ''total_tokens''\<rparr>]))
       \<and> (completion_cost r = None \<longrightarrow> client' = client)
       \<and> (\<forall>ops. (\<forall>op\<in>set ops. \<not> is_reset op) \<longrightarrow>
            (\<exists>ys. cost_breakdown (cost_tracker (apply_ops completion completion_cost ops client))
                     = cost_breakdown (cost_tracker client) @ ys
                 \<and> call_count (cost_tracker (apply_ops completion completion_cost ops client))
                     = call_count (cost_tracker client) + int (length ys)
                 \<and> total_prompt_tokens
                       (cost_tracker (apply_ops completion completion_cost ops client))
                     = total_prompt_tokens (cost_tracker client)
                         + sum_list (map entry_prompt_tokens ys)
                 \<and> total_completion_tokens
                       (cost_tracker (apply_ops completion completion_cost ops client))
                     = total_completion_tokens (cost_tracker client)
                         + sum_list (map entry_completion_tokens ys)
                 \<and> total_tokens (cost_tracker (apply_ops completion completion_cost ops client))
                     = total_tokens (cost_tracker client)
                         + sum_list (map entry_total_tokens ys)
                 \<and> total_cost (cost_tracker (apply_ops completion completion_cost ops client))
                     = fold (\<lambda>entry c. c + entry_cost entry) ys
                         (total_cost (cost_tracker client)))
            \<and> call_count (cost_tracker client)
                 \<le> call_count (cost_tracker (apply_ops completion completion_cost ops client)))
       \<and> cost_tracker (apply_op completion completion_cost client' ResetCostTracking)
            = \<lparr>total_cost = 0, total_prompt_tokens = 0, total_completion_tokens = 0,
               total_tokens = 0, call_count = 0, cost_breakdown = []\<rparr>"
proof -
  from assms obtain m where m: "chosen_model client name = Some m" "m \<noteq> []"
    and c: "completion m request = Inr r"
    and cl: "client' = client\<lparr>cost_tracker :=
               add_call completion_cost (cost_tracker client) r m call_type\<rparr>"
    by (auto simp: chat_def split: option.splits if_splits sum.splits)
  have a: "\<forall>cost. completion_cost r = Some cost \<longrightarrow>
            (\<exists>m. chosen_model client name = Some m
              \<and> call_count (cost_tracker client') = call_count (cost_tracker client) + 1
              \<and> total_cost (cost_tracker client') = total_cost (cost_tracker client) + cost
              \<and> total_prompt_tokens (cost_tracker client') =
                  total_prompt_tokens (cost_tracker client) + usage_tokens r ''prompt_tokens''
              \<and> total_completion_tokens (cost_tracker client') =
                  total_completion_tokens (cost_tracker client)
                    + usage_tokens r ''completion_tokens''
              \<and> total_tokens (cost_tracker client') =
                  total_tokens (cost_tracker client) + usage_tokens r ''total_tokens''
              \<and> cost_breakdown (cost_tracker client') =
                  cost_breakdown (cost_tracker client) @
                    [\<lparr>entry_call_type = call_type, entry_model = m, entry_cost = cost,
                      entry_prompt_tokens = usage_tokens r ''prompt_tokens'',
                      entry_completion_tokens = usage_tokens r ''completion_tokens'',
                      entry_total_tokens = usage_tokens r ''total_tokens''\<rparr>])"
    using m by (simp add: cl add_call_def Let_def)
  have b: "completion_cost r = None \<longrightarrow> client' = client"
    by (simp add: cl add_call_def)
  have d: "\<forall>ops. (\<forall>op\<in>set ops. \<not> is_reset op) \<longrightarrow>
            (\<exists>ys. cost_breakdown (cost_tracker (apply_ops completion completion_cost ops client))
                     = cost_breakdown (cost_tracker client) @ ys
                 \<and> call_count (cost_tracker (apply_ops completion completion_cost ops client))
                     = call_count (cost_tracker client) + int (length ys)
                 \<and> total_prompt_tokens
                       (cost_tracker (apply_ops completion completion_cost ops client))
                     = total_prompt_tokens (cost_tracker client)
                         + sum_list (map entry_prompt_tokens ys)
                 \<and> total_completion_tokens
                       (cost_tracker (apply_ops completion completion_cost ops client))
                     = total_completion_tokens (cost_tracker client)
                         + sum_list (map entry_completion_tokens ys)
                 \<and> total_tokens (cost_tracker (apply_ops completion completion_cost ops client))
                     = total_tokens (cost_tracker client)
                         + sum_list (map entry_total_tokens ys)
                 \<and> total_cost (cost_tracker (apply_ops completion completion_cost ops client))
                     = fold (\<lambda>entry c. c + entry_cost entry) ys
                         (total_cost (cost_tracker client)))
            \<and> call_count (cost_tracker client)
                 \<le> call_count (cost_tracker (apply_ops completion completion_cost ops client))"
  proof (intro allI impI)
    fix ops :: "'b client_op list"
    assume "\<forall>op\<in>set ops. \<not> is_reset op"
    from apply_ops_extends[OF this, of client completion completion_cost]
    obtain ys where "extended_by (cost_tracker client) ys
          (cost_tracker (apply_ops completion completion_cost ops client))" by blast
    then show "(\<exists>ys. cost_breakdown (cost_tracker (apply_ops completion completion_cost ops client))
                     = cost_breakdown (cost_tracker client) @ ys
                 \<and> call_count (cost_tracker (apply_ops completion completion_cost ops client))
                     = call_count (cost_tracker client) + int (length ys)
                 \<and> total_prompt_tokens
                       (cost_tracker (apply_ops completion completion_cost ops client))
                     = total_prompt_tokens (cost_tracker client)
                         + sum_list (map entry_prompt_tokens ys)
                 \<and> total_completion_tokens
                       (cost_tracker (apply_ops completion completion_cost ops client))
                     = total_completion_tokens (cost_tracker client)
                         + sum_list (map entry_completion_tokens ys)
                 \<and> total_tokens (cost_tracker (apply_ops completion completion_cost ops client))
                     = total_tokens (cost_tracker client)
                         + sum_list (map entry_total_tokens ys)
                 \<and> total_cost (cost_tracker (apply_ops completion completion_cost ops client))
                     = fold (\<lambda>entry c. c + entry_cost entry) ys
                         (total_cost (cost_tracker client)))
            \<and> call_count (cost_tracker client)
                 \<le> call_count (cost_tracker (apply_ops completion completion_cost ops client))"
      unfolding extended_by_def by (intro conjI exI[of _ ys]) simp_all
  qed
  have e: "cost_tracker (apply_op completion completion_cost client' ResetCostTracking)
            = \<lparr>total_cost = 0, total_prompt_tokens = 0, total_completion_tokens = 0,
               total_tokens = 0, call_count = 0, cost_breakdown = []\<rparr>"
    by (simp add: reset_def new_tracker_def)
  from a b d e show ?thesis by blast
qed

theorem chat_ledger_lifecycle_witness:
  "chat demo_completion (\<lambda>r. Some 3) demo_client () None ''context_metadata'' =
     (Inr demo_response,
      demo_client\<lparr>cost_tracker :=
        \<lparr>total_cost = 3, total_prompt_tokens = 100, total_completion_tokens = 20,
         total_tokens = 120, call_count = 1,
         cost_breakdown =
           [\<lparr>entry_call_type = ''context_metadata'', entry_model = ''openai/gpt-4o'',
             entry_cost = 3, entry_prompt_tokens = 100, entry_completion_tokens = 20,
             entry_total_tokens = 120\<rparr>]\<rparr>\<rparr>)
   \<and> call_count (cost_tracker demo_client) = 0"
proof -
  have h: "chat demo_completion (\<lambda>r. Some 3) demo_client () None ''context_metadata'' =
     (Inr demo_response,
      demo_client\<lparr>cost_tracker :=
        \<lparr>total_cost = 3, total_prompt_tokens = 100, total_completion_tokens = 20,
         total_tokens = 120, call_count = 1,
         cost_breakdown =
           [\<lparr>entry_call_type = ''context_metadata'', entry_model = ''openai/gpt-4o'',
             entry_cost = 3, entry_prompt_tokens = 100, entry_completion_tokens = 20,
             entry_total_tokens = 120\<rparr>]\<rparr>\<rparr>)"
    by (simp add: chat_def chosen_model_def demo_client_def demo_completion_def add_call_def
        new_tracker_def demo_response_def usage_tokens_def)
  from chat_ledger_lifecycle[OF h] h show ?thesis
    by (simp add: demo_client_def new_tracker_def)
qed

end
